theory Spec2Isabelle
  imports Complex_Main "HOL-Library.Sublist"
begin

section \<open>JavaScript values used by the bridge\<close>

text \<open>
  Numbers that can be \<open>NaN\<close> (the result of \<open>parseInt\<close> on a header) are kept apart from
  plain integers. Delays, token counts and HTTP statuses are integers in this development;
  confidence scores are exact reals. Strings are lists of code units below 256.
\<close>

datatype jsnum = NaN | Num int

fun truthy_num :: "jsnum \<Rightarrow> bool" where
  "truthy_num NaN = False"
| "truthy_num (Num n) = (n \<noteq> 0)"

fun js_times :: "jsnum \<Rightarrow> int \<Rightarrow> jsnum" where
  "js_times NaN k = NaN"
| "js_times (Num n) k = Num (n * k)"

text \<open>\<open>a || b\<close> on optional strings: the empty string and \<open>undefined\<close> are falsy.\<close>

fun or_string :: "string option \<Rightarrow> string \<Rightarrow> string" where
  "or_string None d = d"
| "or_string (Some s) d = (if s = [] then d else s)"

definition digit_char :: "nat \<Rightarrow> char" where
  "digit_char d = (''0123456789'' ! d)"

function show_nat :: "nat \<Rightarrow> string" where
  "show_nat n = (if n < 10 then [digit_char n] else show_nat (n div 10) @ [digit_char (n mod 10)])"
  by pat_completeness auto
termination
  by (relation "measure id") auto

definition show_int :: "int \<Rightarrow> string" where
  "show_int i = (if i < 0 then CHR ''-'' # show_nat (nat (- i)) else show_nat (nat i))"

subsection \<open>\<open>parseInt\<close> without a radix\<close>

definition is_space :: "char \<Rightarrow> bool" where
  "is_space c = (c \<in> set [CHR 0x09, CHR 0x0A, CHR 0x0B, CHR 0x0C, CHR 0x0D, CHR 0x20, CHR 0xA0])"

definition digit_value :: "char \<Rightarrow> nat option" where
  "digit_value c = map_of (zip ''0123456789abcdefABCDEF''
     [0, 1, 2, 3, 4, 5, 6, 7, 8, 9, 10, 11, 12, 13, 14, 15, 10, 11, 12, 13, 14, 15]) c"

definition is_digit_in :: "nat \<Rightarrow> char \<Rightarrow> bool" where
  "is_digit_in radix c = (case digit_value c of None \<Rightarrow> False | Some v \<Rightarrow> v < radix)"

fun digits_value :: "nat \<Rightarrow> nat \<Rightarrow> string \<Rightarrow> nat" where
  "digits_value radix acc [] = acc"
| "digits_value radix acc (c # cs) =
     digits_value radix (acc * radix + (case digit_value c of None \<Rightarrow> 0 | Some v \<Rightarrow> v)) cs"

definition parse_digits :: "nat \<Rightarrow> string \<Rightarrow> nat option" where
  "parse_digits radix s =
     (let ds = takeWhile (is_digit_in radix) s
      in if ds = [] then None else Some (digits_value radix 0 ds))"

definition strip_hex_prefix :: "string \<Rightarrow> string option" where
  "strip_hex_prefix s =
     (if take 2 s = ''0x'' \<or> take 2 s = ''0X'' then Some (drop 2 s) else None)"

definition parseInt :: "string \<Rightarrow> jsnum" where
  "parseInt s =
     (let t = dropWhile is_space s;
          neg = (take 1 t = ''-'');
          u = (if take 1 t = ''-'' \<or> take 1 t = ''+'' then drop 1 t else t);
          r = (case strip_hex_prefix u of
                 Some h \<Rightarrow> parse_digits 16 h
               | None \<Rightarrow> parse_digits 10 u)
      in case r of
           None \<Rightarrow> NaN
         | Some v \<Rightarrow> Num (if neg then - int v else int v))"

section \<open>OpenRouterClient: error classification\<close>

record VisionBridgeError =
  code :: string
  message :: string
  retryable :: bool
  retryAfter :: "jsnum option"

text \<open>
  The part of an axios error that \<open>handleError\<close> reads: the response (absent on a transport
  failure) with its status, its \<open>retry-after\<close> header and \<open>data.error.message\<close>; the
  error's own message; the model of the request that failed. The \<open>details\<close> field of the
  result is free-form and is left out.
\<close>

record AxiosResponse =
  status :: int
  retry_after_header :: "string option"
  error_data_message :: "string option"

record AxiosError =
  response :: "AxiosResponse option"
  error_message :: string
  request_model :: "string option"

record OpenRouterConfig =
  maxRetries :: "int option"
  retryDelay :: "int option"

definition num_opt :: "int option \<Rightarrow> jsnum option" where
  "num_opt = map_option Num"

definition show_undefined :: "string option \<Rightarrow> string" where
  "show_undefined x = (case x of None \<Rightarrow> ''undefined'' | Some s \<Rightarrow> s)"

definition handleError :: "OpenRouterConfig \<Rightarrow> AxiosError \<Rightarrow> VisionBridgeError" where
  "handleError cfg error =
     (case response error of
        None \<Rightarrow>
          \<lparr>code = ''NETWORK_ERROR'',
           message = ''Network error: '' @ error_message error,
           retryable = True,
           retryAfter = num_opt (retryDelay cfg)\<rparr>
      | Some resp \<Rightarrow>
          (if status resp = 400 then
             \<lparr>code = ''BAD_REQUEST'',
              message = or_string (error_data_message resp) ''Bad request'',
              retryable = False, retryAfter = None\<rparr>
           else if status resp = 401 then
             \<lparr>code = ''AUTHENTICATION_ERROR'',
              message = ''Invalid or missing API key'',
              retryable = False, retryAfter = None\<rparr>
           else if status resp = 403 then
             \<lparr>code = ''AUTHORIZATION_ERROR'',
              message = ''Access forbidden'',
              retryable = False, retryAfter = None\<rparr>
           else if status resp = 404 then
             \<lparr>code = ''MODEL_NOT_FOUND'',
              message = ''Model not found: '' @ show_undefined (request_model error),
              retryable = False, retryAfter = None\<rparr>
           else if status resp = 429 then
             \<lparr>code = ''RATE_LIMITED'',
              message = ''Rate limit exceeded'',
              retryable = True,
              retryAfter = Some (js_times (parseInt (or_string (retry_after_header resp) ''60'')) 1000)\<rparr>
           else if status resp \<in> {500, 502, 503, 504} then
             \<lparr>code = ''SERVER_ERROR'',
              message = or_string (error_data_message resp) ''OpenRouter server error'',
              retryable = True,
              retryAfter = num_opt (retryDelay cfg)\<rparr>
           else
             \<lparr>code = ''UNKNOWN_ERROR'',
              message = or_string (error_data_message resp)
                          (''HTTP '' @ show_int (status resp) @ '': '' @ error_message error),
              retryable = (status resp \<ge> 500),
              retryAfter = None\<rparr>))"


section \<open>OpenRouterClient: the retry loop of \<open>createChatCompletion\<close>\<close>

text \<open>
  The response interceptor of the axios client rejects with \<open>handleError error\<close>, so what
  \<open>createChatCompletion\<close> catches from \<open>client.post\<close> is a classified error.
\<close>

definition post :: "OpenRouterConfig \<Rightarrow> AxiosError + 'a \<Rightarrow> VisionBridgeError + 'a" where
  "post cfg raw = (case raw of Inl e \<Rightarrow> Inl (handleError cfg e) | Inr d \<Rightarrow> Inr d)"

text \<open>
  A run records what the caller observes (\<open>Inr\<close> the response data, \<open>Inl\<close> the thrown value,
  which is \<open>undefined\<close> when the loop body never ran), how many times \<open>client.post\<close> was
  called, and the arguments of the calls to \<open>delay\<close>, in order.
\<close>

record 'a completion_run =
  outcome :: "VisionBridgeError option + 'a"
  attempts :: nat
  delays :: "jsnum list"

definition effective_maxRetries :: "OpenRouterConfig \<Rightarrow> int" where
  \<comment> \<open>\<open>this.config.maxRetries || 3\<close>\<close>
  "effective_maxRetries cfg =
     (case maxRetries cfg of None \<Rightarrow> 3 | Some n \<Rightarrow> if n = 0 then 3 else n)"

definition backoff_base :: "OpenRouterConfig \<Rightarrow> VisionBridgeError \<Rightarrow> jsnum" where
  \<comment> \<open>\<open>lastError.retryAfter || this.config.retryDelay || 1000\<close>\<close>
  "backoff_base cfg e =
     (let base = (case retryDelay cfg of
                    None \<Rightarrow> Num 1000
                  | Some d \<Rightarrow> if d = 0 then Num 1000 else Num d)
      in case retryAfter e of
           None \<Rightarrow> base
         | Some r \<Rightarrow> if truthy_num r then r else base)"

definition backoff_delay :: "OpenRouterConfig \<Rightarrow> VisionBridgeError \<Rightarrow> nat \<Rightarrow> jsnum" where
  \<comment> \<open>\<open>(...) * Math.pow(2, attempt - 1)\<close>, for \<open>attempt \<ge> 1\<close>\<close>
  "backoff_delay cfg e attempt = js_times (backoff_base cfg e) (2 ^ (attempt - 1))"

function retry_loop ::
  "OpenRouterConfig \<Rightarrow> (nat \<Rightarrow> AxiosError + 'a) \<Rightarrow> int \<Rightarrow> nat \<Rightarrow> jsnum list \<Rightarrow>
   VisionBridgeError option \<Rightarrow> 'a completion_run" where
  "retry_loop cfg upstream maxR attempt waits lastError =
     (if int attempt \<le> maxR then
        (case post cfg (upstream attempt) of
           Inr d \<Rightarrow> \<lparr>outcome = Inr d, attempts = attempt, delays = waits\<rparr>
         | Inl e \<Rightarrow>
             if \<not> retryable e \<or> int attempt = maxR
             then \<lparr>outcome = Inl (Some e), attempts = attempt, delays = waits\<rparr>
             else retry_loop cfg upstream maxR (attempt + 1)
                    (waits @ [backoff_delay cfg e attempt]) (Some e))
      else \<lparr>outcome = Inl lastError, attempts = attempt - 1, delays = waits\<rparr>)"
  by pat_completeness auto
termination
  by (relation "measure (\<lambda>(cfg, upstream, maxR, attempt, waits, lastError). nat (maxR + 1 - int attempt))")
     auto

declare retry_loop.simps [simp del]

definition createChatCompletion ::
  "OpenRouterConfig \<Rightarrow> (nat \<Rightarrow> AxiosError + 'a) \<Rightarrow> 'a completion_run" where
  "createChatCompletion cfg upstream = retry_loop cfg upstream (effective_maxRetries cfg) 1 [] None"

text \<open>
  An upstream that answers the first attempts from a script and every later attempt with a
  fixed outcome. Attempts are numbered from 1, as in the source.
\<close>

definition scripted :: "'o list \<Rightarrow> 'o \<Rightarrow> nat \<Rightarrow> 'o" where
  "scripted script rest attempt =
     (if 1 \<le> attempt \<and> attempt \<le> length script then script ! (attempt - 1) else rest)"

definition retryable_failure :: "OpenRouterConfig \<Rightarrow> (nat \<Rightarrow> AxiosError + 'a) \<Rightarrow> nat \<Rightarrow> bool" where
  "retryable_failure cfg upstream k =
     (case post cfg (upstream k) of Inl e \<Rightarrow> retryable e | Inr d \<Rightarrow> False)"

definition delay_after :: "OpenRouterConfig \<Rightarrow> (nat \<Rightarrow> AxiosError + 'a) \<Rightarrow> nat \<Rightarrow> jsnum" where
  "delay_after cfg upstream k =
     (case post cfg (upstream k) of Inl e \<Rightarrow> backoff_delay cfg e k | Inr d \<Rightarrow> Num 0)"

definition settled :: "OpenRouterConfig \<Rightarrow> (nat \<Rightarrow> AxiosError + 'a) \<Rightarrow> nat \<Rightarrow> VisionBridgeError option + 'a" where
  "settled cfg upstream k =
     (case post cfg (upstream k) of Inl e \<Rightarrow> Inl (Some e) | Inr d \<Rightarrow> Inr d)"

text \<open>
  The delay as the specification words it: \<open>retryAfter\<close> if the error carries one,
  otherwise the base delay, times \<open>2 ^ (attempt - 1)\<close>.
\<close>

definition spec_backoff_delay :: "OpenRouterConfig \<Rightarrow> VisionBridgeError \<Rightarrow> nat \<Rightarrow> jsnum" where
  "spec_backoff_delay cfg e attempt =
     js_times (case retryAfter e of
                 Some r \<Rightarrow> r
               | None \<Rightarrow> (case retryDelay cfg of None \<Rightarrow> Num 1000 | Some d \<Rightarrow> Num d))
              (2 ^ (attempt - 1))"

subsection \<open>Example configuration and failures\<close>

definition example_config :: OpenRouterConfig where
  "example_config = \<lparr>maxRetries = Some 3, retryDelay = Some 1000\<rparr>"

definition http_failure :: "int \<Rightarrow> string option \<Rightarrow> AxiosError" where
  "http_failure st hdr =
     \<lparr>response = Some \<lparr>status = st, retry_after_header = hdr, error_data_message = None\<rparr>,
      error_message = ''Request failed'', request_model = Some ''openai/gpt-4o''\<rparr>"

section \<open>CircuitBreaker\<close>

datatype breaker_state = Closed | Open | HalfOpen

record CircuitBreaker =
  failureThreshold :: int
  recoveryTimeout :: int
  failures :: int
  lastFailureTime :: int
  state :: breaker_state


text \<open>
  One call of \<open>execute\<close>: the clock read at the open check, what the wrapped operation does
  when it is run (\<open>Inl\<close> the error it throws, \<open>Inr\<close> its value), and the clock read by
  \<open>onFailure\<close> when it fails.
\<close>

record 'a breaker_call =
  entry_time :: int
  op_result :: "string + 'a"
  failure_time :: int

text \<open>
  What a call leaves behind: the breaker, what the caller gets, whether the operation was
  run, and the state the breaker was in while it ran.
\<close>

record 'a execution =
  breaker :: CircuitBreaker
  result :: "string + 'a"
  operation_ran :: bool
  state_during :: "breaker_state option"

definition onSuccess :: "CircuitBreaker \<Rightarrow> CircuitBreaker" where
  "onSuccess cb = cb\<lparr>failures := 0, state := Closed\<rparr>"

definition onFailure :: "CircuitBreaker \<Rightarrow> int \<Rightarrow> CircuitBreaker" where
  "onFailure cb now =
     (let cb1 = cb\<lparr>failures := failures cb + 1, lastFailureTime := now\<rparr>
      in if failures cb1 \<ge> failureThreshold cb1 then cb1\<lparr>state := Open\<rparr> else cb1)"

definition execute :: "CircuitBreaker \<Rightarrow> 'a breaker_call \<Rightarrow> 'a execution" where
  "execute cb c =
     (if state cb = Open \<and> \<not> (entry_time c - lastFailureTime cb > recoveryTimeout cb) then
        \<lparr>breaker = cb, result = Inl ''Circuit breaker is open'',
         operation_ran = False, state_during = None\<rparr>
      else
        (let cb1 = (if state cb = Open then cb\<lparr>state := HalfOpen\<rparr> else cb)
         in case op_result c of
              Inr v \<Rightarrow>
                \<lparr>breaker = onSuccess cb1, result = Inr v,
                 operation_ran = True, state_during = Some (state cb1)\<rparr>
            | Inl err \<Rightarrow>
                \<lparr>breaker = onFailure cb1 (failure_time c), result = Inl err,
                 operation_ran = True, state_during = Some (state cb1)\<rparr>))"

fun run_breaker :: "CircuitBreaker \<Rightarrow> 'a breaker_call list \<Rightarrow> CircuitBreaker" where
  "run_breaker cb [] = cb"
| "run_breaker cb (c # cs) = run_breaker (breaker (execute cb c)) cs"




section \<open>ModelManager\<close>

record ModelCapabilities =
  supportsImages :: bool
  supportsStreaming :: bool
  maxImageSize :: int
  supportedFormats :: "string list"
  maxTokens :: int
  contextLength :: int
  pricing_prompt :: real
  pricing_completion :: real

record ModelConfig =
  primary :: string
  fallback :: "string list"

record ModelManager =
  config :: ModelConfig
  capabilities :: "string \<rightharpoonup> ModelCapabilities"

record ModelSelection =
  model :: string
  confidence :: real
  reason :: string

text \<open>
  The hints of a routing request. \<open>hasImage\<close> and the other flags are optional booleans in
  the source, read only for their truth value, so \<open>undefined\<close> is \<open>False\<close> here.
\<close>

record RoutingRequest =
  hasImage :: bool
  requiresHighQuality :: bool
  requiresFastResponse :: bool
  req_maxTokens :: "int option"
  preferredModel :: "string option"
  costSensitive :: bool
  fallbackAllowed :: bool

definition known_vision_models :: "(string \<times> ModelCapabilities) list" where
  "known_vision_models =
     [(''x-ai/grok-beta-vision'',
       \<lparr>supportsImages = True, supportsStreaming = True, maxImageSize = 8 * 1024 * 1024,
        supportedFormats = [''jpeg'', ''jpg'', ''png'', ''webp''],
        maxTokens = 4000, contextLength = 128000,
        pricing_prompt = 5 / 1000, pricing_completion = 15 / 1000\<rparr>),
      (''google/gemini-2.0-flash-001'',
       \<lparr>supportsImages = True, supportsStreaming = True, maxImageSize = 20 * 1024 * 1024,
        supportedFormats = [''jpeg'', ''jpg'', ''png'', ''webp'', ''gif''],
        maxTokens = 4000, contextLength = 1000000,
        pricing_prompt = 1 / 1000, pricing_completion = 4 / 1000\<rparr>),
      (''anthropic/claude-3-5-sonnet-20241022'',
       \<lparr>supportsImages = True, supportsStreaming = True, maxImageSize = 5 * 1024 * 1024,
        supportedFormats = [''jpeg'', ''jpg'', ''png''],
        maxTokens = 4000, contextLength = 200000,
        pricing_prompt = 3 / 1000, pricing_completion = 15 / 1000\<rparr>),
      (''openai/gpt-4o'',
       \<lparr>supportsImages = True, supportsStreaming = True, maxImageSize = 20 * 1024 * 1024,
        supportedFormats = [''jpeg'', ''jpg'', ''png'', ''webp'', ''gif''],
        maxTokens = 4000, contextLength = 128000,
        pricing_prompt = 5 / 1000, pricing_completion = 15 / 1000\<rparr>),
      (''openai/gpt-4o-mini'',
       \<lparr>supportsImages = True, supportsStreaming = True, maxImageSize = 20 * 1024 * 1024,
        supportedFormats = [''jpeg'', ''jpg'', ''png'', ''webp'', ''gif''],
        maxTokens = 4000, contextLength = 128000,
        pricing_prompt = 15 / 100000, pricing_completion = 6 / 10000\<rparr>)]"

definition new_ModelManager :: "ModelConfig \<Rightarrow> ModelManager" where
  "new_ModelManager cfg = \<lparr>config = cfg, capabilities = map_of known_vision_models\<rparr>"

definition default_capabilities :: ModelCapabilities where
  "default_capabilities =
     \<lparr>supportsImages = False, supportsStreaming = False, maxImageSize = 10 * 1024 * 1024,
      supportedFormats = [''jpeg'', ''jpg'', ''png''],
      maxTokens = 1000, contextLength = 4000,
      pricing_prompt = 1 / 1000, pricing_completion = 2 / 1000\<rparr>"

text \<open>
  \<open>setModelCapabilities\<close> merges a partial record over the existing entry, or over the
  defaults; the partial record is given here as the update it performs.
\<close>

definition setModelCapabilities ::
  "ModelManager \<Rightarrow> string \<Rightarrow> (ModelCapabilities \<Rightarrow> ModelCapabilities) \<Rightarrow> ModelManager" where
  "setModelCapabilities mgr modelId upd =
     (let existing = (case capabilities mgr modelId of
                        None \<Rightarrow> default_capabilities
                      | Some c \<Rightarrow> c)
      in mgr\<lparr>capabilities := (capabilities mgr)(modelId \<mapsto> upd existing)\<rparr>)"

definition isModelAvailable :: "ModelManager \<Rightarrow> string \<Rightarrow> bool" where
  "isModelAvailable mgr modelId =
     (primary (config mgr) = modelId \<or> modelId \<in> set (fallback (config mgr)))"

definition getAvailableModels :: "ModelManager \<Rightarrow> string list" where
  "getAvailableModels mgr = filter (\<lambda>m. m \<noteq> []) (primary (config mgr) # fallback (config mgr))"

definition priorityOrder :: "string list" where
  "priorityOrder =
     [''x-ai/grok-beta-vision'', ''google/gemini-2.0-flash-001'',
      ''anthropic/claude-3-5-sonnet-20241022'', ''openai/gpt-4o'', ''openai/gpt-4o-mini'']"

definition selectBestModel :: "string list \<Rightarrow> string + string" where
  "selectBestModel models =
     (case models of
        [] \<Rightarrow> Inl ''No available models''
      | first # rest \<Rightarrow>
          (case find (\<lambda>priorityModel. priorityModel \<in> set models) priorityOrder of
             Some priorityModel \<Rightarrow> Inr priorityModel
           | None \<Rightarrow> Inr first))"

fun js_includes :: "string \<Rightarrow> string \<Rightarrow> bool" where
  "js_includes [] sub = (sub = [])"
| "js_includes (c # cs) sub = (prefix sub (c # cs) \<or> js_includes cs sub)"

definition clamp01 :: "real \<Rightarrow> real" where
  "clamp01 x = max 0 (min 1 x)"

definition calculateConfidence :: "ModelManager \<Rightarrow> string \<Rightarrow> RoutingRequest \<Rightarrow> real" where
  "calculateConfidence mgr m request =
     (case capabilities mgr m of
        None \<Rightarrow> 5 / 10
      | Some caps \<Rightarrow>
          (let c0 = 5 / 10;
               c1 = (if hasImage request \<and> supportsImages caps then c0 + 3 / 10 else c0);
               c2 = (if requiresHighQuality request \<and>
                        (js_includes m ''gpt-4o'' \<or> js_includes m ''claude-3-5-sonnet'')
                     then c1 + 2 / 10 else c1);
               c3 = (if hasImage request \<and> \<not> supportsImages caps then c2 - 5 / 10 else c2)
           in clamp01 c3))"

fun join :: "string \<Rightarrow> string list \<Rightarrow> string" where
  "join sep [] = []"
| "join sep [x] = x"
| "join sep (x # y # ys) = x @ sep @ join sep (y # ys)"

definition getSelectionReason :: "ModelManager \<Rightarrow> string \<Rightarrow> RoutingRequest \<Rightarrow> string" where
  "getSelectionReason mgr m request =
     (let reasons =
            (if hasImage request then [''supports image processing''] else []) @
            (if requiresHighQuality request then [''high-quality output''] else []) @
            (if m = primary (config mgr) then [''primary model'']
             else if m \<in> set (fallback (config mgr)) then [''fallback model'']
             else [])
      in if length reasons > 0 then join '', '' reasons else ''default selection'')"

definition image_capable :: "ModelManager \<Rightarrow> string \<Rightarrow> bool" where
  \<comment> \<open>\<open>this.capabilities.get(model)?.supportsImages\<close>\<close>
  "image_capable mgr m = (case capabilities mgr m of None \<Rightarrow> False | Some c \<Rightarrow> supportsImages c)"

definition token_capacity :: "ModelManager \<Rightarrow> string \<Rightarrow> int" where
  \<comment> \<open>\<open>this.capabilities.get(model)?.maxTokens || 0\<close>\<close>
  "token_capacity mgr m = (case capabilities mgr m of None \<Rightarrow> 0 | Some c \<Rightarrow> maxTokens c)"

definition candidateModels :: "ModelManager \<Rightarrow> RoutingRequest \<Rightarrow> string list" where
  "candidateModels mgr request =
     (let availableModels = getAvailableModels mgr;
          byImage = (if hasImage request
                     then filter (image_capable mgr) availableModels
                     else availableModels);
          byTokens = (case req_maxTokens request of
                        None \<Rightarrow> byImage
                      | Some n \<Rightarrow>
                          if n \<noteq> 0 \<and> n > 2000
                          then filter (\<lambda>m. token_capacity mgr m \<ge> n) byImage
                          else byImage)
      in if length byTokens = 0 then availableModels else byTokens)"

definition preferred_usable :: "ModelManager \<Rightarrow> RoutingRequest \<Rightarrow> string \<Rightarrow> bool" where
  "preferred_usable mgr request p =
     (p \<noteq> [] \<and> isModelAvailable mgr p \<and>
      (case capabilities mgr p of
         None \<Rightarrow> False
       | Some caps \<Rightarrow> \<not> hasImage request \<or> supportsImages caps))"

definition selectFromCandidates :: "ModelManager \<Rightarrow> RoutingRequest \<Rightarrow> string + ModelSelection" where
  "selectFromCandidates mgr request =
     (case selectBestModel (candidateModels mgr request) of
        Inl err \<Rightarrow> Inl err
      | Inr selectedModel \<Rightarrow>
          Inr \<lparr>model = selectedModel,
               confidence = calculateConfidence mgr selectedModel request,
               reason = getSelectionReason mgr selectedModel request\<rparr>)"

definition selectModel :: "ModelManager \<Rightarrow> RoutingRequest \<Rightarrow> string + ModelSelection" where
  "selectModel mgr request =
     (case preferredModel request of
        None \<Rightarrow> selectFromCandidates mgr request
      | Some p \<Rightarrow>
          if preferred_usable mgr request p
          then Inr \<lparr>model = p, confidence = 1,
                    reason = ''Preferred model specified and available''\<rparr>
          else selectFromCandidates mgr request)"

record ModelRequirements =
  r_hasImage :: bool
  r_maxTokens :: "int option"
  r_minContextLength :: "int option"

record ModelValidation =
  valid :: bool
  issues :: "string list"

definition validateModel :: "ModelManager \<Rightarrow> string \<Rightarrow> ModelRequirements \<Rightarrow> ModelValidation" where
  "validateModel mgr modelId requirements =
     (case capabilities mgr modelId of
        None \<Rightarrow> \<lparr>valid = False, issues = [''Model capabilities not known'']\<rparr>
      | Some caps \<Rightarrow>
          (let found =
                 (if r_hasImage requirements \<and> \<not> supportsImages caps
                  then [''Model does not support images''] else []) @
                 (case r_maxTokens requirements of
                    None \<Rightarrow> []
                  | Some n \<Rightarrow>
                      if n \<noteq> 0 \<and> maxTokens caps < n
                      then [''Model max tokens ('' @ show_int (maxTokens caps) @
                            '') insufficient for request ('' @ show_int n @ '')'']
                      else []) @
                 (case r_minContextLength requirements of
                    None \<Rightarrow> []
                  | Some n \<Rightarrow>
                      if n \<noteq> 0 \<and> contextLength caps < n
                      then [''Model context length ('' @ show_int (contextLength caps) @
                            '') insufficient ('' @ show_int n @ '')'']
                      else [])
           in \<lparr>valid = (length found = 0), issues = found\<rparr>))"

section \<open>ModelRouter\<close>

record RoutingMetrics =
  totalRequests :: nat
  successfulSelections :: nat
  fallbackSelections :: nat
  modelUsage :: "string \<rightharpoonup> nat"
  confidenceHistory :: "real list"
  lastSelection :: "ModelSelection option"

definition updateMetrics :: "RoutingMetrics \<Rightarrow> ModelSelection \<Rightarrow> RoutingMetrics" where
  "updateMetrics metrics selection =
     (let used = (case modelUsage metrics (model selection) of None \<Rightarrow> 0 | Some n \<Rightarrow> n);
          history = confidenceHistory metrics @ [confidence selection]
      in metrics\<lparr>modelUsage := (modelUsage metrics)(model selection \<mapsto> used + 1),
                 confidenceHistory := (if length history > 100 then tl history else history),
                 lastSelection := Some selection\<rparr>)"

definition request_requirements :: "RoutingRequest \<Rightarrow> ModelRequirements" where
  "request_requirements request =
     \<lparr>r_hasImage = hasImage request, r_maxTokens = req_maxTokens request,
      r_minContextLength = None\<rparr>"

definition selectFallbackModel ::
  "ModelManager \<Rightarrow> RoutingRequest \<Rightarrow> string list \<Rightarrow> ModelSelection" where
  "selectFallbackModel mgr request found =
     (let availableModels = getAvailableModels mgr;
          fallbackCandidates =
            filter (\<lambda>m. m \<noteq> primary (config mgr) \<and> isModelAvailable mgr m) availableModels
      in case find (\<lambda>fallbackModel.
                      valid (validateModel mgr fallbackModel (request_requirements request)))
                   fallbackCandidates of
           Some fallbackModel \<Rightarrow>
             \<lparr>model = fallbackModel, confidence = 7 / 10,
              reason = ''Fallback model selected due to: '' @ join '', '' found\<rparr>
         | None \<Rightarrow>
             \<lparr>model = primary (config mgr), confidence = 3 / 10,
              reason = ''All models failed validation. Issues: '' @ join '', '' found\<rparr>)"

text \<open>
  The body of the \<open>try\<close> block of \<open>ModelRouter.selectModel\<close>: \<open>Inl\<close> is an exception
  leaving the block. The router and its model manager share one configuration
  (\<open>initializeModelManager\<close> copies the router's into the manager). Logging and the
  timestamps are left out.
\<close>

definition selectModel_body ::
  "ModelManager \<Rightarrow> RoutingMetrics \<Rightarrow> RoutingRequest \<Rightarrow> string + (ModelSelection \<times> RoutingMetrics)" where
  "selectModel_body mgr metrics request =
     (case selectModel mgr request of
        Inl err \<Rightarrow> Inl err
      | Inr selection \<Rightarrow>
          (let validation = validateModel mgr (model selection) (request_requirements request)
           in if \<not> valid validation then
                (let selection' = selectFallbackModel mgr request (issues validation);
                     metrics' = metrics\<lparr>fallbackSelections := fallbackSelections metrics + 1\<rparr>
                 in Inr (selection', updateMetrics metrics' selection'))
              else
                (let metrics' = metrics\<lparr>successfulSelections := successfulSelections metrics + 1\<rparr>
                 in Inr (selection, updateMetrics metrics' selection))))"

definition router_selectModel ::
  "ModelManager \<Rightarrow> RoutingMetrics \<Rightarrow> RoutingRequest \<Rightarrow> string + (ModelSelection \<times> RoutingMetrics)" where
  "router_selectModel mgr metrics request =
     (let metrics1 = metrics\<lparr>totalRequests := totalRequests metrics + 1\<rparr>
      in case selectModel_body mgr metrics1 request of
           Inr ok \<Rightarrow> Inr ok
         | Inl err \<Rightarrow>
             (let fallbackSelection =
                    \<lparr>model = primary (config mgr), confidence = 1 / 10,
                     reason = ''Fallback due to selection error''\<rparr>
              in Inr (fallbackSelection, updateMetrics metrics1 fallbackSelection)))"

definition initial_metrics :: RoutingMetrics where
  "initial_metrics =
     \<lparr>totalRequests = 0, successfulSelections = 0, fallbackSelections = 0,
      modelUsage = Map.empty, confidenceHistory = [], lastSelection = None\<rparr>"

definition image_request :: RoutingRequest where
  "image_request =
     \<lparr>hasImage = True, requiresHighQuality = False, requiresFastResponse = False,
      req_maxTokens = None, preferredModel = None, costSensitive = False,
      fallbackAllowed = True\<rparr>"

text \<open>The two filters of \<open>selectModel\<close> as one predicate on a model.\<close>

definition passes_filters :: "ModelManager \<Rightarrow> RoutingRequest \<Rightarrow> string \<Rightarrow> bool" where
  "passes_filters mgr request m =
     ((hasImage request \<longrightarrow> image_capable mgr m) \<and>
      (case req_maxTokens request of
         None \<Rightarrow> True
       | Some n \<Rightarrow> n > 2000 \<longrightarrow> token_capacity mgr m \<ge> n))"

definition unknown_only_manager :: ModelManager where
  "unknown_only_manager = new_ModelManager \<lparr>primary = ''meta-llama/llama-3-8b'', fallback = []\<rparr>"

definition mixed_manager :: ModelManager where
  "mixed_manager =
     new_ModelManager \<lparr>primary = ''meta-llama/llama-3-8b'', fallback = [''openai/gpt-4o-mini'']\<rparr>"

definition gpt4o_manager :: ModelManager where
  "gpt4o_manager = new_ModelManager \<lparr>primary = ''openai/gpt-4o'', fallback = []\<rparr>"

definition empty_manager :: ModelManager where
  "empty_manager = new_ModelManager \<lparr>primary = [], fallback = []\<rparr>"

definition large_preferred_request :: RoutingRequest where
  "large_preferred_request =
     \<lparr>hasImage = True, requiresHighQuality = False, requiresFastResponse = False,
      req_maxTokens = Some 8000, preferredModel = Some ''openai/gpt-4o'', costSensitive = False,
      fallbackAllowed = True\<rparr>"

definition unknown_preferred_request :: RoutingRequest where
  "unknown_preferred_request =
     \<lparr>hasImage = True, requiresHighQuality = False, requiresFastResponse = False,
      req_maxTokens = None, preferredModel = Some ''meta-llama/llama-3-8b'', costSensitive = False,
      fallbackAllowed = True\<rparr>"

section \<open>ResponseTransformer\<close>

subsection \<open>String operations\<close>

abbreviation NL :: char where "NL \<equiv> CHR 0x0A"
abbreviation CR :: char where "CR \<equiv> CHR 0x0D"
abbreviation TAB :: char where "TAB \<equiv> CHR 0x09"

text \<open>
  \<open>trim\<close> removes the white space of \<open>is_space\<close> (the white-space code units below 256)
  at both ends; \<open>toLowerCase\<close> changes the letters A to Z and keeps every other code unit.
\<close>

definition trim :: "string \<Rightarrow> string" where
  "trim s = rev (dropWhile is_space (rev (dropWhile is_space s)))"

definition toLowerCase_char :: "char \<Rightarrow> char" where
  "toLowerCase_char c =
     (case map_of (zip ''ABCDEFGHIJKLMNOPQRSTUVWXYZ'' ''abcdefghijklmnopqrstuvwxyz'') c of
        None \<Rightarrow> c
      | Some l \<Rightarrow> l)"

definition toLowerCase :: "string \<Rightarrow> string" where
  "toLowerCase s = map toLowerCase_char s"

text \<open>\<open>s.lastIndexOf(c)\<close> for a one-character \<open>c\<close>: the last index, or \<open>-1\<close>.\<close>

fun last_index :: "string \<Rightarrow> char \<Rightarrow> nat option" where
  "last_index [] c = None"
| "last_index (x # xs) c =
     (case last_index xs c of
        Some i \<Rightarrow> Some (Suc i)
      | None \<Rightarrow> if x = c then Some 0 else None)"

definition lastIndexOf :: "string \<Rightarrow> char \<Rightarrow> int" where
  "lastIndexOf s c = (case last_index s c of None \<Rightarrow> - 1 | Some i \<Rightarrow> int i)"

text \<open>\<open>s.substring(0, n)\<close>: a negative \<open>n\<close> counts as 0, an \<open>n\<close> beyond the end as the length.\<close>

definition substring0 :: "string \<Rightarrow> int \<Rightarrow> string" where
  "substring0 s n = take (nat n) s"

text \<open>\<open>replace(/\r\n/g, '\n')\<close>\<close>

fun replace_crlf :: "string \<Rightarrow> string" where
  "replace_crlf [] = []"
| "replace_crlf [c] = [c]"
| "replace_crlf (c # d # cs) =
     (if c = CR \<and> d = NL then NL # replace_crlf cs else c # replace_crlf (d # cs))"

text \<open>\<open>replace(/\r/g, '\n')\<close>\<close>

definition replace_cr :: "string \<Rightarrow> string" where
  "replace_cr s = map (\<lambda>c. if c = CR then NL else c) s"

text \<open>
  \<open>replace(/P{n,}/g, rep)\<close> for a character class \<open>P\<close>: every maximal run of at least \<open>n\<close>
  characters of the class becomes \<open>rep\<close>. The run read so far is carried along.
\<close>

definition flush_run :: "nat \<Rightarrow> string \<Rightarrow> string \<Rightarrow> string" where
  "flush_run n rep run = (if length run \<ge> n then rep else run)"

fun collapse_runs :: "(char \<Rightarrow> bool) \<Rightarrow> nat \<Rightarrow> string \<Rightarrow> string \<Rightarrow> string \<Rightarrow> string" where
  "collapse_runs P n rep run [] = (if run = [] then [] else flush_run n rep run)"
| "collapse_runs P n rep run (c # cs) =
     (if P c then collapse_runs P n rep (run @ [c]) cs
      else (if run = [] then [] else flush_run n rep run) @ c # collapse_runs P n rep [] cs)"

definition normalize_whitespace :: "string \<Rightarrow> string" where
  "normalize_whitespace s =
     trim (collapse_runs (\<lambda>c. c = CHR '' '' \<or> c = TAB) 2 '' '' []
            (collapse_runs (\<lambda>c. c = NL) 3 [NL, NL] []
              (replace_cr (replace_crlf s))))"

subsection \<open>The product \<open>maxLength * 0.7\<close> in double precision\<close>

text \<open>
  \<open>0.7\<close> is the double \<open>3152519739159347 / 2 ^ 52\<close>. The product with an integer is rounded to
  53 significant bits, ties to even. \<open>times_0_7_scaled m\<close> is \<open>2 ^ 52\<close> times the double
  \<open>m * 0.7\<close>, for integers \<open>m\<close> below \<open>2 ^ 53\<close> in absolute value.
\<close>

fun bit_length :: "nat \<Rightarrow> nat" where
  "bit_length n = (if n = 0 then 0 else Suc (bit_length (n div 2)))"

declare bit_length.simps [simp del]

definition round_to_53_bits :: "nat \<Rightarrow> nat" where
  "round_to_53_bits N =
     (let L = bit_length N
      in if L \<le> 53 then N
         else (let s = L - 53;
                   q = N div 2 ^ s;
                   r = N mod 2 ^ s;
                   half = 2 ^ (s - 1);
                   q' = (if r > half \<or> (r = half \<and> odd q) then q + 1 else q)
               in q' * 2 ^ s))"

definition times_0_7_scaled :: "int \<Rightarrow> int" where
  "times_0_7_scaled m =
     (if m < 0 then - int (round_to_53_bits (nat (- m) * 3152519739159347))
      else int (round_to_53_bits (nat m * 3152519739159347)))"

definition exceeds_70_percent :: "int \<Rightarrow> int \<Rightarrow> bool" where
  \<comment> \<open>\<open>cutoff > maxLength * 0.7\<close>\<close>
  "exceeds_70_percent cutoff maxLength = (cutoff * 2 ^ 52 > times_0_7_scaled maxLength)"

subsection \<open>Formatting and truncation\<close>

record TransformOptions =
  includeMetadata :: bool
  includeConfidence :: bool
  includeProcessingTime :: bool
  preserveFormatting :: bool
  maxResponseLength :: "int option"
  addAnalysisPrefix :: bool
  chunkSize :: "int option"

text \<open>
  The options a method works with are the caller's options spread over these defaults; the
  record above is the merged one.
\<close>

definition defaultOptions :: TransformOptions where
  "defaultOptions =
     \<lparr>includeMetadata = True, includeConfidence = True, includeProcessingTime = True,
      preserveFormatting = False, maxResponseLength = Some 4000, addAnalysisPrefix = True,
      chunkSize = None\<rparr>"

definition truncation_marker :: string where
  "truncation_marker = [NL, NL] @ ''[Response truncated]''"

text \<open>The limit \<open>maxLength\<close> is an integer here, as the lengths it is compared with.\<close>

definition truncateResponse :: "string \<Rightarrow> int \<Rightarrow> string" where
  "truncateResponse text maxLength =
     (if int (length text) \<le> maxLength then text
      else
        (let truncated = substring0 text (maxLength - 50);
             lastSentence = lastIndexOf truncated (CHR ''.'');
             lastLineBreak = lastIndexOf truncated NL;
             cutoff = max lastSentence lastLineBreak
         in if exceeds_70_percent cutoff maxLength
            then substring0 truncated (cutoff + 1) @ truncation_marker
            else truncated @ ''...'' @ truncation_marker))"

definition analysisKeywords :: "string list" where
  "analysisKeywords =
     [''image'', ''picture'', ''photo'', ''visual'', ''see'', ''observe'', ''notice'',
      ''depicts'', ''shows'', ''displays'', ''contains'', ''features'', ''elements'']"

definition appearsToBeImageAnalysis :: "string \<Rightarrow> bool" where
  "appearsToBeImageAnalysis content =
     list_ex (\<lambda>keyword. js_includes (toLowerCase content) keyword) analysisKeywords"

text \<open>The text of \<open>formatResponseText\<close> before the length check.\<close>

definition format_before_truncation :: "string \<Rightarrow> TransformOptions \<Rightarrow> string" where
  "format_before_truncation content options =
     (let formatted = trim content;
          prefixed = (if addAnalysisPrefix options \<and> appearsToBeImageAnalysis formatted
                      then ''Image Analysis:'' @ [NL, NL] @ formatted
                      else formatted)
      in if \<not> preserveFormatting options then normalize_whitespace prefixed else prefixed)"

definition formatResponseText :: "string \<Rightarrow> TransformOptions \<Rightarrow> string" where
  "formatResponseText content options =
     (let formatted = format_before_truncation content options
      in case maxResponseLength options of
           None \<Rightarrow> formatted
         | Some limit \<Rightarrow>
             if limit \<noteq> 0 \<and> int (length formatted) > limit
             then truncateResponse formatted limit
             else formatted)"

text \<open>
  Truncation as the specification words it: cut at the last sentence or line boundary before
  the limit, and append the marker.
\<close>

definition spec_truncate :: "string \<Rightarrow> int \<Rightarrow> string" where
  "spec_truncate text maxLength =
     (let head = substring0 text maxLength;
          cutoff = max (lastIndexOf head (CHR ''.'')) (lastIndexOf head NL)
      in substring0 head (cutoff + 1) @ truncation_marker)"

definition short_limit_options :: TransformOptions where
  "short_limit_options =
     \<lparr>includeMetadata = True, includeConfidence = True, includeProcessingTime = True,
      preserveFormatting = False, maxResponseLength = Some 60, addAnalysisPrefix = True,
      chunkSize = None\<rparr>"

definition greeting_text :: string where
  "greeting_text = ''Hello. '' @ replicate 63 (CHR ''a'')"

definition medium_limit_options :: TransformOptions where
  "medium_limit_options =
     \<lparr>includeMetadata = True, includeConfidence = True, includeProcessingTime = True,
      preserveFormatting = True, maxResponseLength = Some 200, addAnalysisPrefix = False,
      chunkSize = None\<rparr>"

definition two_sentence_text :: string where
  "two_sentence_text = replicate 145 (CHR ''a'') @ ''.'' @ replicate 100 (CHR ''b'')"

subsection \<open>Responses\<close>

record ResponseMetadata =
  model_used :: "string option"
  tokens_used :: "int option"
  confidence_score :: "real option"
  finish_reason_note :: "string option"
  streaming :: "bool option"
  partial :: "bool option"
  error_note :: "string option"

text \<open>
  A \<open>VisionResponse\<close> has one text item as its content; \<open>processing_time_ms\<close> is a clock
  difference and is left out of the metadata.
\<close>

record VisionResponse =
  content_text :: string
  metadata :: "ResponseMetadata option"

definition no_metadata :: ResponseMetadata where
  "no_metadata =
     \<lparr>model_used = None, tokens_used = None, confidence_score = None, finish_reason_note = None,
      streaming = None, partial = None, error_note = None\<rparr>"

datatype MessageContent =
    StringContent string
  | ArrayContent "(string \<times> string option) list"
  | OtherContent

record ChatMessage =
  message_content :: MessageContent

record Choice =
  choice_message :: "ChatMessage option"
  finish_reason :: "string option"

record Usage =
  prompt_tokens :: int
  completion_tokens :: int
  total_tokens :: int

record ChatCompletionResponse =
  response_id :: string
  response_model :: string
  choices :: "Choice list"
  usage :: "Usage option"

text \<open>
  \<open>extractContent\<close>: \<open>Inl\<close> is the message of the error it throws. An item of an array
  content is its \<open>type\<close> and its optional \<open>text\<close>.
\<close>

definition extractContent :: "ChatCompletionResponse \<Rightarrow> string + string" where
  "extractContent resp =
     (case choices resp of
        [] \<Rightarrow> Inl ''No choices in response''
      | choice # others \<Rightarrow>
          (case choice_message choice of
             None \<Rightarrow> Inl ''No message in choice''
           | Some msg \<Rightarrow>
               (case message_content msg of
                  StringContent s \<Rightarrow> Inr s
                | ArrayContent items \<Rightarrow>
                    (let textContent =
                           join '' '' (map (\<lambda>item. case snd item of None \<Rightarrow> [] | Some t \<Rightarrow> t)
                             (filter (\<lambda>item. fst item = ''text'' \<and>
                                        (case snd item of None \<Rightarrow> False | Some t \<Rightarrow> t \<noteq> []))
                                     items))
                     in Inr (if textContent = [] then ''No text content available''
                             else textContent))
                | OtherContent \<Rightarrow> Inr ''No content available'')))"

definition first_finish_reason :: "ChatCompletionResponse \<Rightarrow> string option" where
  \<comment> \<open>\<open>response.choices?.[0]?.finish_reason\<close>\<close>
  "first_finish_reason resp =
     (case choices resp of [] \<Rightarrow> None | choice # others \<Rightarrow> finish_reason choice)"

definition estimateConfidence :: "ChatCompletionResponse \<Rightarrow> string + real" where
  "estimateConfidence resp =
     (case extractContent resp of
        Inl err \<Rightarrow> Inl err
      | Inr content \<Rightarrow>
          (let c0 = 7 / 10;
               c1 = (if length content > 200 then c0 + 1 / 10 else c0);
               c2 = (if length content > 500 then c1 + 1 / 10 else c1);
               c3 = (case usage resp of
                       None \<Rightarrow> c2
                     | Some u \<Rightarrow>
                         if real_of_int (completion_tokens u) / real_of_int (max (prompt_tokens u) 1)
                              > 5 / 10
                         then c2 + 1 / 10 else c2);
               c4 = (if first_finish_reason resp = Some ''stop'' then c3 + 1 / 10 else c3);
               c5 = (if first_finish_reason resp = Some ''length'' then c4 - 2 / 10 else c4)
           in Inr (clamp01 c5)))"

definition extractMetadata :: "ChatCompletionResponse \<Rightarrow> TransformOptions \<Rightarrow> string + ResponseMetadata" where
  "extractMetadata resp options =
     (let m0 = no_metadata\<lparr>model_used := Some (response_model resp)\<rparr>;
          m1 = (case usage resp of
                  None \<Rightarrow> m0
                | Some u \<Rightarrow> m0\<lparr>tokens_used := Some (total_tokens u)\<rparr>);
          note = (case first_finish_reason resp of
                    None \<Rightarrow> None
                  | Some fr \<Rightarrow> if fr \<noteq> [] \<and> fr \<noteq> ''stop'' then Some fr else None)
      in if includeConfidence options then
           (case estimateConfidence resp of
              Inl err \<Rightarrow> Inl err
            | Inr c \<Rightarrow>
                Inr (case note of
                       None \<Rightarrow> m1\<lparr>confidence_score := Some c\<rparr>
                     | Some fr \<Rightarrow> m1\<lparr>confidence_score := Some c, finish_reason_note := Some fr\<rparr>))
         else
           Inr (case note of
                  None \<Rightarrow> m1
                | Some fr \<Rightarrow> m1\<lparr>finish_reason_note := Some fr\<rparr>))"

definition transformVisionResponse :: "ChatCompletionResponse \<Rightarrow> TransformOptions \<Rightarrow> VisionResponse" where
  "transformVisionResponse resp opts =
     (let failed = (\<lambda>err.
           \<lparr>content_text =
              ''I apologize, but I encountered an error while processing the image. Please try again.'',
            metadata = Some (no_metadata\<lparr>model_used := Some (response_model resp),
                                         confidence_score := Some 0,
                                         error_note := Some err\<rparr>)\<rparr>)
      in case extractContent resp of
           Inl err \<Rightarrow> failed err
         | Inr content \<Rightarrow>
             (case extractMetadata resp opts of
                Inl err \<Rightarrow> failed err
              | Inr md \<Rightarrow>
                  \<lparr>content_text = formatResponseText content opts,
                   metadata = (if includeMetadata opts then Some md else None)\<rparr>))"

subsection \<open>Streaming\<close>

datatype StreamChunk =
    Delta "string option"
  | Done
  | ErrorChunk "string option"
  | OtherChunk

text \<open>What the upstream generator does when asked for the next item: it yields a chunk or throws.\<close>

datatype StreamItem = Yields StreamChunk | Throws string

definition ends_with_sentence_punctuation :: "string \<Rightarrow> bool" where
  \<comment> \<open>\<open>/[.!?]\s*$/\<close>\<close>
  "ends_with_sentence_punctuation s =
     (case dropWhile is_space (rev s) of
        [] \<Rightarrow> False
      | c # cs \<Rightarrow> c \<in> set ''.!?'')"

definition ends_with_line_break :: "string \<Rightarrow> bool" where
  \<comment> \<open>\<open>/\n\s*$/\<close>\<close>
  "ends_with_line_break s = (NL \<in> set (takeWhile is_space (rev s)))"

definition effective_chunkSize :: "TransformOptions \<Rightarrow> int" where
  \<comment> \<open>\<open>options.chunkSize || 100\<close>\<close>
  "effective_chunkSize options =
     (case chunkSize options of None \<Rightarrow> 100 | Some n \<Rightarrow> if n = 0 then 100 else n)"

definition shouldProcessChunk :: "string \<Rightarrow> TransformOptions \<Rightarrow> bool" where
  "shouldProcessChunk chunk options =
     (if int (length chunk) \<ge> effective_chunkSize options then True
      else if ends_with_sentence_punctuation chunk then True
      else if ends_with_line_break chunk then True
      else False)"

definition processChunk :: "string \<Rightarrow> TransformOptions \<Rightarrow> string" where
  "processChunk chunk options =
     (let processed = trim chunk
      in case processed of
           [] \<Rightarrow> processed
         | c # cs \<Rightarrow> if c \<in> set (''.!?'' @ [NL]) then processed else CHR '' '' # processed)"

definition streamingIndicators :: "string list" where
  "streamingIndicators =
     [''i can see'', ''the image shows'', ''in this picture'', ''the photo depicts'',
      ''visual analysis'', ''image content'', ''what i observe'']"

definition isImageAnalysis :: "string \<Rightarrow> bool" where
  "isImageAnalysis text =
     list_ex (\<lambda>indicator. js_includes (toLowerCase text) indicator) streamingIndicators"

definition createIntermediateResponse :: "string \<Rightarrow> bool \<Rightarrow> TransformOptions \<Rightarrow> VisionResponse" where
  "createIntermediateResponse text hasImageAnalysis options =
     (let pre = (if hasImageAnalysis \<and> addAnalysisPrefix options
                 then ''Analyzing image...'' @ [NL, NL] else [])
      in \<lparr>content_text = pre @ text,
          metadata = Some (no_metadata\<lparr>model_used := Some ''streaming'',
                                       confidence_score := Some (5 / 10),
                                       streaming := Some True,
                                       partial := Some True\<rparr>)\<rparr>)"

definition createFinalResponse :: "string \<Rightarrow> TransformOptions \<Rightarrow> VisionResponse" where
  "createFinalResponse text options =
     \<lparr>content_text = formatResponseText text options,
      metadata = Some (no_metadata\<lparr>model_used := Some ''streaming'',
                                   confidence_score := Some (8 / 10),
                                   streaming := Some False,
                                   partial := Some False\<rparr>)\<rparr>"

definition createErrorResponse :: "string \<Rightarrow> VisionResponse" where
  "createErrorResponse errorMessage =
     \<lparr>content_text =
        ''I apologize, but I encountered an error while processing your request: '' @
        errorMessage @ ''. Please try again.'',
      metadata = Some (no_metadata\<lparr>model_used := Some ''error'',
                                   confidence_score := Some 0,
                                   error_note := Some errorMessage\<rparr>)\<rparr>"

definition remaining_buffer :: "TransformOptions \<Rightarrow> string \<Rightarrow> string \<Rightarrow> VisionResponse list" where
  \<comment> \<open>the statements after the loop\<close>
  "remaining_buffer opts accumulatedText chunkBuffer =
     (if trim chunkBuffer \<noteq> []
      then [createFinalResponse (accumulatedText @ processChunk chunkBuffer opts) opts]
      else [])"

text \<open>
  The loop over the stream, with the responses yielded from here on as its value. An \<open>error\<close>
  or \<open>done\<close> chunk breaks out of the loop, an exhausted stream leaves it, and both go on to
  the statements after the loop; an exception of the stream goes to the \<open>catch\<close> block.
\<close>

fun stream_loop ::
  "TransformOptions \<Rightarrow> StreamItem list \<Rightarrow> string \<Rightarrow> string \<Rightarrow> bool \<Rightarrow> VisionResponse list" where
  "stream_loop opts [] accumulatedText chunkBuffer hasImageAnalysis =
     remaining_buffer opts accumulatedText chunkBuffer"
| "stream_loop opts (Throws msg # rest) accumulatedText chunkBuffer hasImageAnalysis =
     [createErrorResponse (''Streaming error: '' @ msg)]"
| "stream_loop opts (Yields (ErrorChunk err) # rest) accumulatedText chunkBuffer hasImageAnalysis =
     createErrorResponse (or_string err ''Streaming error occurred'') #
     remaining_buffer opts accumulatedText chunkBuffer"
| "stream_loop opts (Yields Done # rest) accumulatedText chunkBuffer hasImageAnalysis =
     (if trim accumulatedText \<noteq> [] then [createFinalResponse accumulatedText opts] else []) @
     remaining_buffer opts accumulatedText chunkBuffer"
| "stream_loop opts (Yields (Delta d) # rest) accumulatedText chunkBuffer hasImageAnalysis =
     (case d of
        None \<Rightarrow> stream_loop opts rest accumulatedText chunkBuffer hasImageAnalysis
      | Some piece \<Rightarrow>
          if piece = [] then stream_loop opts rest accumulatedText chunkBuffer hasImageAnalysis
          else if shouldProcessChunk (chunkBuffer @ piece) opts then
            createIntermediateResponse
              (accumulatedText @ processChunk (chunkBuffer @ piece) opts)
              (hasImageAnalysis \<or>
               isImageAnalysis (accumulatedText @ processChunk (chunkBuffer @ piece) opts))
              opts #
            stream_loop opts rest
              (accumulatedText @ processChunk (chunkBuffer @ piece) opts) []
              (hasImageAnalysis \<or>
               isImageAnalysis (accumulatedText @ processChunk (chunkBuffer @ piece) opts))
          else stream_loop opts rest accumulatedText (chunkBuffer @ piece) hasImageAnalysis)"
| "stream_loop opts (Yields OtherChunk # rest) accumulatedText chunkBuffer hasImageAnalysis =
     stream_loop opts rest accumulatedText chunkBuffer hasImageAnalysis"

definition transformStreamingResponse :: "StreamItem list \<Rightarrow> TransformOptions \<Rightarrow> VisionResponse list" where
  "transformStreamingResponse stream opts = stream_loop opts stream [] [] False"

definition is_final :: "VisionResponse \<Rightarrow> bool" where
  "is_final r = (case metadata r of None \<Rightarrow> False | Some md \<Rightarrow> partial md = Some False)"

definition hello_stream :: "StreamItem list" where
  "hello_stream =
     [Yields (Delta (Some ''Hello'')), Yields (Delta (Some '' world'')),
      Yields (Delta (Some ''.'')), Yields Done]"

definition hello_response :: ChatCompletionResponse where
  "hello_response =
     \<lparr>response_id = ''gen-1'', response_model = ''openai/gpt-4o'',
      choices = [\<lparr>choice_message = Some \<lparr>message_content = StringContent ''Hello world.''\<rparr>,
                 finish_reason = Some ''stop''\<rparr>],
      usage = None\<rparr>"

definition long_limit_options :: TransformOptions where
  "long_limit_options =
     \<lparr>includeMetadata = True, includeConfidence = True, includeProcessingTime = True,
      preserveFormatting = True, maxResponseLength = Some 4000, addAnalysisPrefix = False,
      chunkSize = None\<rparr>"

definition long_text :: string where
  "long_text = replicate 3949 (CHR ''a'') @ ''.'' @ replicate 1050 (CHR ''b'')"

section \<open>ImageProcessor\<close>

type_synonym bytes = "nat list"

record ImageProcessingOptions =
  maxSize :: nat
  allowedFormats :: "string list"
  quality :: nat
  maxDimension :: nat

definition default_image_options :: ImageProcessingOptions where
  "default_image_options =
     \<lparr>maxSize = 10 * 1024 * 1024,
      allowedFormats = [''jpeg'', ''jpg'', ''png'', ''webp'', ''gif''],
      quality = 85, maxDimension = 2048\<rparr>"

record ImageData =
  image_url :: string
  image_format :: string
  image_size :: nat
  image_base64 :: string

text \<open>
  What is thrown inside \<open>processImage\<close>: an object literal made by \<open>createError\<close>, or an
  instance of \<open>Error\<close>, which may or may not carry a \<open>code\<close> property.
\<close>

datatype thrown = PlainObject VisionBridgeError | ErrorInstance bool string

fun thrown_message :: "thrown \<Rightarrow> string" where
  "thrown_message (PlainObject e) = message e"
| "thrown_message (ErrorInstance has_code msg) = msg"

definition createError :: "string \<Rightarrow> string \<Rightarrow> bool \<Rightarrow> VisionBridgeError" where
  "createError c msg r =
     \<lparr>code = c, message = msg, retryable = r,
      retryAfter = (if r then Some (Num 1000) else None)\<rparr>"

text \<open>
  The libraries the processor calls: base64 coding of buffers, the URL parser, the HTTP client
  and sharp. A \<open>None\<close> from the URL parser or from sharp stands for an exception.
\<close>

datatype encoder = Jpeg nat | Png nat | Webp nat | SameFormat

record SharpMetadata =
  md_width :: "nat option"
  md_height :: "nat option"
  md_format :: "string option"

record HttpFailure =
  failure_code :: "string option"
  failure_status :: "int option"
  failure_message :: string

record Libraries =
  base64_decode :: "string \<Rightarrow> bytes"
  base64_encode :: "bytes \<Rightarrow> string"
  url_protocol :: "string \<Rightarrow> string option"
  url_pathname :: "string \<Rightarrow> string option"
  http_get :: "string \<Rightarrow> HttpFailure + (bytes \<times> string option)"
  sharp_metadata :: "bytes \<Rightarrow> SharpMetadata option"
  sharp_toBuffer :: "bytes \<Rightarrow> nat option \<Rightarrow> encoder \<Rightarrow> bytes option"

datatype sharp_call = MetadataCall | ToBufferCall

definition image_formats :: "string list" where
  "image_formats = [''jpeg'', ''jpg'', ''png'', ''webp'', ''gif'']"

definition base64_alphabet :: string where
  "base64_alphabet = ''ABCDEFGHIJKLMNOPQRSTUVWXYZabcdefghijklmnopqrstuvwxyz0123456789+/=''"

definition matches_data_url :: "string \<Rightarrow> bool" where
  \<comment> \<open>\<open>/^data:image\/(jpeg|jpg|png|webp|gif);base64,[A-Za-z0-9+/=]+$/\<close>\<close>
  "matches_data_url s =
     list_ex (\<lambda>fmt.
         prefix (''data:image/'' @ fmt @ '';base64,'') s \<and>
         drop (length (''data:image/'' @ fmt @ '';base64,'')) s \<noteq> [] \<and>
         list_all (\<lambda>c. c \<in> set base64_alphabet)
           (drop (length (''data:image/'' @ fmt @ '';base64,'')) s))
       image_formats"

datatype input_type = UrlInput | Base64Input

record InputValidation =
  input_valid :: bool
  input_kind :: input_type
  input_error :: "string option"

definition validateImageInput :: "Libraries \<Rightarrow> string \<Rightarrow> InputValidation" where
  "validateImageInput lib imageUrl =
     (if imageUrl = [] then
        \<lparr>input_valid = False, input_kind = UrlInput, input_error = Some ''Image URL is required''\<rparr>
      else if prefix ''data:image/'' imageUrl then
        (if \<not> matches_data_url imageUrl then
           \<lparr>input_valid = False, input_kind = Base64Input,
            input_error = Some ''Invalid base64 image data format''\<rparr>
         else \<lparr>input_valid = True, input_kind = Base64Input, input_error = None\<rparr>)
      else
        (case url_protocol lib imageUrl of
           None \<Rightarrow>
             \<lparr>input_valid = False, input_kind = UrlInput, input_error = Some ''Invalid URL format''\<rparr>
         | Some protocol \<Rightarrow>
             if protocol \<notin> set [''http:'', ''https:''] then
               \<lparr>input_valid = False, input_kind = UrlInput,
                input_error = Some ''Image URL must use HTTP or HTTPS protocol''\<rparr>
             else \<lparr>input_valid = True, input_kind = UrlInput, input_error = None\<rparr>))"

definition not_semicolon :: "char \<Rightarrow> bool" where
  "not_semicolon c = (c \<noteq> CHR '';'')"

definition extractFormatFromDataUrl :: "string \<Rightarrow> string" where
  \<comment> \<open>\<open>/^data:image\/([^;]+)/\<close>\<close>
  "extractFormatFromDataUrl dataUrl =
     (if prefix ''data:image/'' dataUrl \<and> takeWhile not_semicolon (drop 11 dataUrl) \<noteq> []
      then toLowerCase (takeWhile not_semicolon (drop 11 dataUrl))
      else ''unknown'')"

fun search_image_type :: "string \<Rightarrow> string option" where
  \<comment> \<open>\<open>/image\/([^;]+)/\<close>, tried at every position from the left\<close>
  "search_image_type [] = None"
| "search_image_type (c # cs) =
     (if prefix ''image/'' (c # cs) \<and> takeWhile not_semicolon (drop 6 (c # cs)) \<noteq> []
      then Some (takeWhile not_semicolon (drop 6 (c # cs)))
      else search_image_type cs)"

definition extractFormatFromContentType :: "string option \<Rightarrow> string option" where
  "extractFormatFromContentType contentType =
     (case contentType of
        None \<Rightarrow> None
      | Some ct \<Rightarrow> if ct = [] then None else map_option toLowerCase (search_image_type ct))"

definition extractFormatFromUrl :: "Libraries \<Rightarrow> string \<Rightarrow> string option" where
  "extractFormatFromUrl lib url =
     (case url_pathname lib url of
        None \<Rightarrow> None
      | Some pathname \<Rightarrow>
          (let extension = rev (takeWhile (\<lambda>c. c \<noteq> CHR ''.'') (rev (toLowerCase pathname)))
           in if extension \<noteq> [] \<and> extension \<in> set image_formats then Some extension else None))"

definition detectImageFormat :: "Libraries \<Rightarrow> bytes \<Rightarrow> string option" where
  "detectImageFormat lib buffer =
     (case sharp_metadata lib buffer of
        None \<Rightarrow> None
      | Some md \<Rightarrow> (case md_format md of None \<Rightarrow> None | Some f \<Rightarrow> if f = [] then None else Some f))"

text \<open>\<open>downloadImage\<close>, with the calls it makes to sharp.\<close>

definition downloadImage ::
  "Libraries \<Rightarrow> string \<Rightarrow> (VisionBridgeError + (bytes \<times> string)) \<times> sharp_call list" where
  "downloadImage lib imageUrl =
     (case http_get lib imageUrl of
        Inr (data, contentType) \<Rightarrow>
          (case extractFormatFromContentType contentType of
             Some f \<Rightarrow> (Inr (data, f), [])
           | None \<Rightarrow>
               (case extractFormatFromUrl lib imageUrl of
                  Some f \<Rightarrow> (Inr (data, f), [])
                | None \<Rightarrow>
                    (case detectImageFormat lib data of
                       Some f \<Rightarrow> (Inr (data, f), [MetadataCall])
                     | None \<Rightarrow>
                         (Inl (createError ''DOWNLOAD_ERROR''
                                 ''Failed to download image: Unable to detect image format'' False),
                          [MetadataCall]))))
      | Inl failure \<Rightarrow>
          (if failure_code failure = Some ''ENOTFOUND'' \<or> failure_code failure = Some ''ECONNREFUSED''
           then (Inl (createError ''IMAGE_URL_INACCESSIBLE''
                        (''Cannot access image URL: '' @ failure_message failure) False), [])
           else if failure_status failure = Some 404
           then (Inl (createError ''IMAGE_NOT_FOUND'' ''Image not found at the provided URL'' False), [])
           else if failure_status failure = Some 403
           then (Inl (createError ''IMAGE_ACCESS_FORBIDDEN'' ''Access to image is forbidden'' False), [])
           else (Inl (createError ''DOWNLOAD_ERROR''
                        (''Failed to download image: '' @ failure_message failure) False), [])))"

definition optimizeImage ::
  "Libraries \<Rightarrow> ImageProcessingOptions \<Rightarrow> bytes \<Rightarrow> string \<Rightarrow> bytes \<times> sharp_call list" where
  "optimizeImage lib opts buffer fmt =
     (case sharp_metadata lib buffer of
        None \<Rightarrow> (buffer, [MetadataCall])
      | Some md \<Rightarrow>
          (let resize =
                 (case (md_width md, md_height md) of
                    (Some w, Some h) \<Rightarrow>
                      if w \<noteq> 0 \<and> h \<noteq> 0 \<and> (w > maxDimension opts \<or> h > maxDimension opts)
                      then Some (maxDimension opts) else None
                  | _ \<Rightarrow> None);
               lower = toLowerCase fmt
           in if lower = ''gif'' then (buffer, [MetadataCall])
              else
                (let enc = (if lower = ''jpeg'' \<or> lower = ''jpg'' then Jpeg (quality opts)
                            else if lower = ''png'' then Png (quality opts)
                            else if lower = ''webp'' then Webp (quality opts)
                            else SameFormat)
                 in case sharp_toBuffer lib buffer resize enc of
                      None \<Rightarrow> (buffer, [MetadataCall, ToBufferCall])
                    | Some out \<Rightarrow> (out, [MetadataCall, ToBufferCall]))))"

definition getMimeType :: "string \<Rightarrow> string" where
  "getMimeType fmt =
     (case map_of [(''jpeg'', ''image/jpeg''), (''jpg'', ''image/jpeg''), (''png'', ''image/png''),
                   (''webp'', ''image/webp''), (''gif'', ''image/gif'')] (toLowerCase fmt) of
        None \<Rightarrow> ''image/jpeg''
      | Some mime \<Rightarrow> mime)"

record image_run =
  image_outcome :: "thrown + ImageData"
  sharp_calls :: "sharp_call list"

text \<open>The statements of the \<open>try\<close> block, from the size check on.\<close>

definition check_and_optimize ::
  "Libraries \<Rightarrow> ImageProcessingOptions \<Rightarrow> bytes \<Rightarrow> string \<Rightarrow> sharp_call list \<Rightarrow> image_run" where
  "check_and_optimize lib opts imageBuffer fmt calls =
     (if length imageBuffer > maxSize opts then
        \<lparr>image_outcome = Inl (PlainObject (createError ''IMAGE_TOO_LARGE''
            (''Image size ('' @ show_nat (length imageBuffer) @ '' bytes) exceeds limit ('' @
             show_nat (maxSize opts) @ '' bytes)'') False)),
         sharp_calls = calls\<rparr>
      else if toLowerCase fmt \<notin> set (allowedFormats opts) then
        \<lparr>image_outcome = Inl (PlainObject (createError ''UNSUPPORTED_FORMAT''
            (''Image format '' @ [CHR 0x27] @ fmt @ [CHR 0x27] @ '' is not supported'') False)),
         sharp_calls = calls\<rparr>
      else
        (let (optimizedBuffer, optimizer_calls) = optimizeImage lib opts imageBuffer fmt;
             optimizedFormat = toLowerCase fmt
         in \<lparr>image_outcome = Inr
               \<lparr>image_url = ''data:'' @ getMimeType optimizedFormat @ '';base64,'' @
                              base64_encode lib optimizedBuffer,
                image_format = optimizedFormat,
                image_size = length optimizedBuffer,
                image_base64 = base64_encode lib optimizedBuffer\<rparr>,
             sharp_calls = calls @ optimizer_calls\<rparr>))"

definition base64_part :: "string \<Rightarrow> string" where
  \<comment> \<open>\<open>imageUrl.split(',')[1]\<close> of a string that holds a comma\<close>
  "base64_part imageUrl =
     takeWhile (\<lambda>c. c \<noteq> CHR '','') (drop 1 (dropWhile (\<lambda>c. c \<noteq> CHR '','') imageUrl))"

definition processImage_try :: "Libraries \<Rightarrow> ImageProcessingOptions \<Rightarrow> string \<Rightarrow> image_run" where
  "processImage_try lib opts imageUrl =
     (let validation = validateImageInput lib imageUrl
      in if \<not> input_valid validation then
           \<lparr>image_outcome = Inl (PlainObject (createError ''INVALID_IMAGE_INPUT''
               (or_string (input_error validation) ''Invalid image input'') False)),
            sharp_calls = []\<rparr>
         else if input_kind validation = Base64Input then
           check_and_optimize lib opts
             (base64_decode lib (base64_part imageUrl))
             (extractFormatFromDataUrl imageUrl) []
         else
           (case downloadImage lib imageUrl of
              (Inl err, calls) \<Rightarrow> \<lparr>image_outcome = Inl (PlainObject err), sharp_calls = calls\<rparr>
            | (Inr (buffer, fmt), calls) \<Rightarrow> check_and_optimize lib opts buffer fmt calls))"

definition processImage :: "Libraries \<Rightarrow> ImageProcessingOptions \<Rightarrow> string \<Rightarrow> image_run" where
  "processImage lib opts imageUrl =
     (let attempt = processImage_try lib opts imageUrl
      in case image_outcome attempt of
           Inr imageData \<Rightarrow> attempt
         | Inl error \<Rightarrow>
             (case error of
                ErrorInstance True msg \<Rightarrow> attempt
              | _ \<Rightarrow>
                  attempt\<lparr>image_outcome := Inl (PlainObject (createError ''PROCESSING_ERROR''
                    (''Failed to process image: '' @ thrown_message error) False))\<rparr>))"

text \<open>The bytes and the format the size check is applied to, when the input yields any.\<close>

definition obtained_image :: "Libraries \<Rightarrow> string \<Rightarrow> (bytes \<times> string) option" where
  "obtained_image lib imageUrl =
     (if \<not> input_valid (validateImageInput lib imageUrl) then None
      else if input_kind (validateImageInput lib imageUrl) = Base64Input
      then Some (base64_decode lib (base64_part imageUrl), extractFormatFromDataUrl imageUrl)
      else (case fst (downloadImage lib imageUrl) of
              Inl err \<Rightarrow> None
            | Inr got \<Rightarrow> Some got))"

text \<open>
  Stand-ins for the libraries that keep the lengths of base64 coding, with a sharp that reads
  a 10 by 10 PNG and whose re-encoding is two bytes longer than its input.
\<close>

definition growing_toBuffer :: "bytes \<Rightarrow> nat option \<Rightarrow> encoder \<Rightarrow> bytes option" where
  "growing_toBuffer buffer resize enc = Some (buffer @ [0, 0])"

definition png_metadata :: "bytes \<Rightarrow> SharpMetadata option" where
  "png_metadata buffer = Some \<lparr>md_width = Some 10, md_height = Some 10, md_format = Some ''png''\<rparr>"

definition zero_decode :: "string \<Rightarrow> bytes" where
  "zero_decode s = replicate (length s * 3 div 4) 0"

definition letter_encode :: "bytes \<Rightarrow> string" where
  "letter_encode b = replicate ((length b + 2) div 3 * 4) (CHR ''A'')"

definition no_url :: "string \<Rightarrow> string option" where
  "no_url s = None"

definition unreachable :: "string \<Rightarrow> HttpFailure + (bytes \<times> string option)" where
  "unreachable s =
     Inl \<lparr>failure_code = Some ''ENOTFOUND'', failure_status = None,
          failure_message = ''getaddrinfo ENOTFOUND''\<rparr>"

definition growing_libraries :: Libraries where
  "growing_libraries =
     \<lparr>base64_decode = zero_decode, base64_encode = letter_encode,
      url_protocol = no_url, url_pathname = no_url, http_get = unreachable,
      sharp_metadata = png_metadata, sharp_toBuffer = growing_toBuffer\<rparr>"

definition tiny_image_options :: ImageProcessingOptions where
  "tiny_image_options =
     \<lparr>maxSize = 3, allowedFormats = [''jpeg'', ''jpg'', ''png'', ''webp'', ''gif''],
      quality = 85, maxDimension = 2048\<rparr>"

section \<open>Properties of the retry loop\<close>

lemma loop_run:
  "a \<le> k \<Longrightarrow> int k \<le> M \<Longrightarrow> (\<forall>j. a \<le> j \<and> j < k \<longrightarrow> retryable_failure cfg up j) \<Longrightarrow>
   \<not> retryable_failure cfg up k \<or> int k = M \<Longrightarrow>
   retry_loop cfg up M a w l =
     \<lparr>outcome = settled cfg up k, attempts = k, delays = w @ map (delay_after cfg up) [a..<k]\<rparr>"
proof (induction "k - a" arbitrary: a w l)
  case 0
  then have ak: "a = k" by simp
  show ?case using 0(5) 0(3) unfolding ak
    by (subst retry_loop.simps) (auto simp: retryable_failure_def settled_def split: sum.splits)
next
  case (Suc n)
  then have lt: "a < k" by simp
  with Suc.prems have rf: "retryable_failure cfg up a" by simp
  from lt Suc.prems have neq: "int a \<noteq> M" "int a \<le> M" by auto
  have step: "retry_loop cfg up M (Suc a) (w @ [delay_after cfg up a]) l' =
     \<lparr>outcome = settled cfg up k, attempts = k,
      delays = (w @ [delay_after cfg up a]) @ map (delay_after cfg up) [Suc a..<k]\<rparr>" for l'
    using Suc.hyps(1)[of "Suc a"] Suc.hyps(2) Suc.prems lt by auto
  have up: "[a..<k] = a # [Suc a..<k]" using lt by (simp add: upt_conv_Cons)
  obtain e where e: "post cfg (up a) = Inl e" "retryable e"
    using rf by (auto simp: retryable_failure_def split: sum.splits)
  have da: "delay_after cfg up a = backoff_delay cfg e a"
    using e by (simp add: delay_after_def)
  show ?case using e neq step[of "Some e"] 
    by (subst retry_loop.simps) (simp add: up da)
qed

lemma loop_attempts_le: "attempts (retry_loop cfg up M a w l) \<le> max (a - 1) (nat M)"
proof (induction cfg up M a w l rule: retry_loop.induct)
  case (1 cfg upstream maxR attempt waits lastError)
  show ?case
  proof (cases "int attempt \<le> maxR")
    case False
    then show ?thesis by (subst retry_loop.simps) simp
  next
    case le: True
    show ?thesis
    proof (cases "post cfg (upstream attempt)")
      case (Inr d)
      then show ?thesis using le by (subst retry_loop.simps) auto
    next
      case (Inl e)
      show ?thesis
      proof (cases "\<not> retryable e \<or> int attempt = maxR")
        case True
        then show ?thesis using le Inl by (subst retry_loop.simps) auto
      next
        case False
        with 1[OF le Inl] le
        have "attempts (retry_loop cfg upstream maxR (attempt + 1)
                (waits @ [backoff_delay cfg e attempt]) (Some e)) \<le> nat maxR"
          by auto
        then show ?thesis using le Inl False by (subst retry_loop.simps) auto
      qed
    qed
  qed
qed

lemma two_elements: "length xs = 2 \<Longrightarrow> xs ! 0 = a \<Longrightarrow> xs ! 1 = b \<Longrightarrow> xs = [a, b]"
  by (cases xs; cases "tl xs") auto

lemma backoff_delay_explicit:
  "backoff_delay cfg e j =
     (case retryAfter e of
        Some (Num r) \<Rightarrow>
          if r \<noteq> 0 then Num (r * 2 ^ (j - 1))
          else Num ((case retryDelay cfg of None \<Rightarrow> 1000 | Some d \<Rightarrow> if d = 0 then 1000 else d)
                    * 2 ^ (j - 1))
      | _ \<Rightarrow>
          Num ((case retryDelay cfg of None \<Rightarrow> 1000 | Some d \<Rightarrow> if d = 0 then 1000 else d)
               * 2 ^ (j - 1)))"
  by (auto simp: backoff_delay_def backoff_base_def Let_def split: option.splits jsnum.splits)

text \<open>
  Claim C2, as the code has it. Let \<open>M\<close> be the configured \<open>maxRetries\<close>, or 3 when the setting
  is absent or zero, and \<open>B\<close> the configured \<open>retryDelay\<close>, or 1000 when the setting is absent or
  zero. \<open>createChatCompletion\<close> calls the upstream at most \<open>M\<close> times. If the first \<open>k - 1\<close>
  attempts fail with retryable errors and attempt \<open>k\<close> succeeds, fails with a non-retryable
  error, or is the last allowed attempt, then exactly \<open>k\<close> attempts are made, the caller gets the
  outcome of attempt \<open>k\<close> (the response, or the classified error), there are \<open>k - 1\<close> waits, and
  the wait after the failed attempt \<open>j\<close> is \<open>r * 2 ^ (j - 1)\<close> when the classified error carries
  a \<open>retryAfter\<close> that is a non-zero number \<open>r\<close>, and \<open>B * 2 ^ (j - 1)\<close> when \<open>retryAfter\<close> is
  absent, zero or not a number.
\<close>

theorem createChatCompletion_retry_policy:
  assumes M: "M = (case maxRetries cfg of None \<Rightarrow> 3 | Some n \<Rightarrow> if n = 0 then 3 else n)"
    and B: "B = (case retryDelay cfg of None \<Rightarrow> 1000 | Some d \<Rightarrow> if d = 0 then 1000 else d)"
  shows "int (attempts (createChatCompletion cfg up)) \<le> max 0 M \<and>
   (\<forall>k. 1 \<le> k \<and> int k \<le> M \<and>
        (\<forall>j. 1 \<le> j \<and> j < k \<longrightarrow> (\<exists>e. post cfg (up j) = Inl e \<and> retryable e)) \<and>
        ((\<forall>e. post cfg (up k) = Inl e \<longrightarrow> \<not> retryable e) \<or> int k = M) \<longrightarrow>
        outcome (createChatCompletion cfg up) =
          (case post cfg (up k) of Inl e \<Rightarrow> Inl (Some e) | Inr d \<Rightarrow> Inr d) \<and>
        attempts (createChatCompletion cfg up) = k \<and>
        length (delays (createChatCompletion cfg up)) = k - 1 \<and>
        (\<forall>j e. 1 \<le> j \<and> j < k \<and> post cfg (up j) = Inl e \<longrightarrow>
           delays (createChatCompletion cfg up) ! (j - 1) =
             (case retryAfter e of
                Some (Num r) \<Rightarrow>
                  if r \<noteq> 0 then Num (r * 2 ^ (j - 1)) else Num (B * 2 ^ (j - 1))
              | _ \<Rightarrow> Num (B * 2 ^ (j - 1)))))"
proof (rule conjI)
  have Me: "M = effective_maxRetries cfg" using M by (simp add: effective_maxRetries_def)
  have "attempts (createChatCompletion cfg up) \<le> max 0 (nat (effective_maxRetries cfg))"
    using loop_attempts_le[of cfg up "effective_maxRetries cfg" 1 "[]" None]
    by (simp add: createChatCompletion_def)
  then show "int (attempts (createChatCompletion cfg up)) \<le> max 0 M"
    unfolding Me by linarith
next
  have Me: "M = effective_maxRetries cfg" using M by (simp add: effective_maxRetries_def)
  show "\<forall>k. 1 \<le> k \<and> int k \<le> M \<and>
        (\<forall>j. 1 \<le> j \<and> j < k \<longrightarrow> (\<exists>e. post cfg (up j) = Inl e \<and> retryable e)) \<and>
        ((\<forall>e. post cfg (up k) = Inl e \<longrightarrow> \<not> retryable e) \<or> int k = M) \<longrightarrow>
        outcome (createChatCompletion cfg up) =
          (case post cfg (up k) of Inl e \<Rightarrow> Inl (Some e) | Inr d \<Rightarrow> Inr d) \<and>
        attempts (createChatCompletion cfg up) = k \<and>
        length (delays (createChatCompletion cfg up)) = k - 1 \<and>
        (\<forall>j e. 1 \<le> j \<and> j < k \<and> post cfg (up j) = Inl e \<longrightarrow>
           delays (createChatCompletion cfg up) ! (j - 1) =
             (case retryAfter e of
                Some (Num r) \<Rightarrow>
                  if r \<noteq> 0 then Num (r * 2 ^ (j - 1)) else Num (B * 2 ^ (j - 1))
              | _ \<Rightarrow> Num (B * 2 ^ (j - 1))))"
  proof (rule allI, rule impI)
    fix k
    assume h: "1 \<le> k \<and> int k \<le> M \<and>
        (\<forall>j. 1 \<le> j \<and> j < k \<longrightarrow> (\<exists>e. post cfg (up j) = Inl e \<and> retryable e)) \<and>
        ((\<forall>e. post cfg (up k) = Inl e \<longrightarrow> \<not> retryable e) \<or> int k = M)"
    have k1: "1 \<le> k" and kM: "int k \<le> effective_maxRetries cfg"
      using h Me by simp_all
    have rf: "\<forall>j. 1 \<le> j \<and> j < k \<longrightarrow> retryable_failure cfg up j"
      using h by (auto simp: retryable_failure_def)
    have stop: "\<not> retryable_failure cfg up k \<or> int k = effective_maxRetries cfg"
      using h Me by (auto simp: retryable_failure_def split: sum.splits)
    have run: "createChatCompletion cfg up =
        \<lparr>outcome = settled cfg up k, attempts = k, delays = map (delay_after cfg up) [1..<k]\<rparr>"
      unfolding createChatCompletion_def
      using loop_run[of 1 k "effective_maxRetries cfg" cfg up "[]" None] k1 kM rf stop by simp
    have o: "outcome (createChatCompletion cfg up) =
            (case post cfg (up k) of Inl e \<Rightarrow> Inl (Some e) | Inr d \<Rightarrow> Inr d)"
      by (simp add: run settled_def)
    have a: "attempts (createChatCompletion cfg up) = k" by (simp add: run)
    have l: "length (delays (createChatCompletion cfg up)) = k - 1" by (simp add: run)
    have d: "\<forall>j e. 1 \<le> j \<and> j < k \<and> post cfg (up j) = Inl e \<longrightarrow>
             delays (createChatCompletion cfg up) ! (j - 1) =
               (case retryAfter e of
                  Some (Num r) \<Rightarrow>
                    if r \<noteq> 0 then Num (r * 2 ^ (j - 1)) else Num (B * 2 ^ (j - 1))
                | _ \<Rightarrow> Num (B * 2 ^ (j - 1)))"
    proof (intro allI impI)
      fix j e
      assume j: "1 \<le> j \<and> j < k \<and> post cfg (up j) = Inl e"
      then have idx: "j - 1 < length [1..<k]" by (simp del: upt_Suc) arith
      have "[1..<k] ! (j - 1) = j" using j by (simp del: upt_Suc)
      then have "delays (createChatCompletion cfg up) ! (j - 1) = delay_after cfg up j"
        using idx by (simp add: run del: upt_Suc)
      also have "\<dots> = backoff_delay cfg e j" using j by (simp add: delay_after_def)
      finally show "delays (createChatCompletion cfg up) ! (j - 1) =
               (case retryAfter e of
                  Some (Num r) \<Rightarrow>
                    if r \<noteq> 0 then Num (r * 2 ^ (j - 1)) else Num (B * 2 ^ (j - 1))
                | _ \<Rightarrow> Num (B * 2 ^ (j - 1)))"
        unfolding B by (simp add: backoff_delay_explicit)
    qed
    show "outcome (createChatCompletion cfg up) =
          (case post cfg (up k) of Inl e \<Rightarrow> Inl (Some e) | Inr d \<Rightarrow> Inr d) \<and>
        attempts (createChatCompletion cfg up) = k \<and>
        length (delays (createChatCompletion cfg up)) = k - 1 \<and>
        (\<forall>j e. 1 \<le> j \<and> j < k \<and> post cfg (up j) = Inl e \<longrightarrow>
           delays (createChatCompletion cfg up) ! (j - 1) =
             (case retryAfter e of
                Some (Num r) \<Rightarrow>
                  if r \<noteq> 0 then Num (r * 2 ^ (j - 1)) else Num (B * 2 ^ (j - 1))
              | _ \<Rightarrow> Num (B * 2 ^ (j - 1))))"
      by (rule conjI[OF o conjI[OF a conjI[OF l d]]])
  qed
qed

text \<open>
  A 429 response with the header \<open>retry-after: 30\<close>, then a 500 response, then a success, under
  \<open>maxRetries = 3\<close> and \<open>retryDelay = 1000\<close>. The first error carries \<open>retryAfter = 30000\<close>, so
  the first wait is \<open>30000 * 2 ^ 0\<close>; the second carries the configured delay, so the second
  wait is \<open>1000 * 2 ^ 1\<close>; the third attempt returns the success.
\<close>

theorem createChatCompletion_retry_policy_witness:
  "createChatCompletion example_config
     (scripted [Inl (http_failure 429 (Some ''30'')), Inl (http_failure 500 None)] (Inr ())) =
   \<lparr>outcome = Inr (), attempts = 3, delays = [Num 30000, Num 2000]\<rparr>"
proof -
  let ?up = "scripted [Inl (http_failure 429 (Some ''30'')), Inl (http_failure 500 None)] (Inr ())"
  let ?run = "createChatCompletion example_config ?up"
  have p30: "parseInt ''30'' = Num 30" by code_simp
  have e1: "handleError example_config (http_failure 429 (Some ''30'')) =
    \<lparr>code = ''RATE_LIMITED'', message = ''Rate limit exceeded'', retryable = True,
     retryAfter = Some (Num 30000)\<rparr>"
    by (simp add: handleError_def http_failure_def p30)
  have e2: "handleError example_config (http_failure 500 None) =
    \<lparr>code = ''SERVER_ERROR'', message = ''OpenRouter server error'', retryable = True,
     retryAfter = Some (Num 1000)\<rparr>"
    by (simp add: handleError_def http_failure_def example_config_def num_opt_def)
  have s1: "post example_config (?up 1) =
      Inl \<lparr>code = ''RATE_LIMITED'', message = ''Rate limit exceeded'', retryable = True,
           retryAfter = Some (Num 30000)\<rparr>"
    by (simp add: scripted_def post_def e1)
  have s2: "post example_config (?up 2) =
      Inl \<lparr>code = ''SERVER_ERROR'', message = ''OpenRouter server error'', retryable = True,
           retryAfter = Some (Num 1000)\<rparr>"
    by (simp add: scripted_def post_def e2)
  have s3: "post example_config (?up 3) = Inr ()"
    by (simp add: scripted_def post_def)
  have M: "(3::int) = (case maxRetries example_config of None \<Rightarrow> 3 | Some n \<Rightarrow> if n = 0 then 3 else n)"
    by (simp add: example_config_def)
  have B: "(1000::int) = (case retryDelay example_config of None \<Rightarrow> 1000
                             | Some d \<Rightarrow> if d = 0 then 1000 else d)"
    by (simp add: example_config_def)
  have before: "\<forall>j. 1 \<le> j \<and> j < 3 \<longrightarrow>
      (\<exists>e. post example_config (?up j) = Inl e \<and> retryable e)"
  proof (intro allI impI)
    fix j :: nat assume "1 \<le> j \<and> j < 3"
    then have "j = 1 \<or> j = 2" by arith
    then show "\<exists>e. post example_config (?up j) = Inl e \<and> retryable e"
      using s1 s2 by auto
  qed
  have hyp: "1 \<le> (3::nat) \<and> int 3 \<le> 3 \<and>
      (\<forall>j. 1 \<le> j \<and> j < 3 \<longrightarrow> (\<exists>e. post example_config (?up j) = Inl e \<and> retryable e)) \<and>
      ((\<forall>e. post example_config (?up 3) = Inl e \<longrightarrow> \<not> retryable e) \<or> int 3 = 3)"
    using before by simp
  note policy = createChatCompletion_retry_policy[OF M B, of ?up]
  note at3 = conjunct2[OF policy, rule_format, OF hyp]
  have out: "outcome ?run = Inr ()" using at3 s3 by simp
  have att: "attempts ?run = 3" using at3 by simp
  have len: "length (delays ?run) = 2" using at3 by simp
  have nth: "\<forall>j e. 1 \<le> j \<and> j < 3 \<and> post example_config (?up j) = Inl e \<longrightarrow>
           delays ?run ! (j - 1) =
             (case retryAfter e of
                Some (Num r) \<Rightarrow>
                  if r \<noteq> 0 then Num (r * 2 ^ (j - 1)) else Num (1000 * 2 ^ (j - 1))
              | _ \<Rightarrow> Num (1000 * 2 ^ (j - 1)))"
    using at3 by blast
  have d1: "delays ?run ! 0 = Num 30000"
    using nth[rule_format, of 1, OF conjI[OF _ conjI[OF _ s1]]] by simp
  have d2: "delays ?run ! 1 = Num 2000"
    using nth[rule_format, of 2, OF conjI[OF _ conjI[OF _ s2]]] by simp
  have ds: "delays ?run = [Num 30000, Num 2000]"
    by (rule two_elements[OF len d1 d2])
  show ?thesis
    using out att ds by (cases ?run) simp
qed

text \<open>
  A 429 response whose \<open>retry-after\<close> header is \<open>0\<close> is classified with \<open>retryAfter = 0\<close>: the
  field is present, but the loop waits the base delay of 1000 milliseconds, not
  \<open>0 * 2 ^ 0 = 0\<close> as the wording "retryAfter if present" gives.
\<close>

theorem createChatCompletion_zero_retry_after_counterexample:
  "retryAfter (handleError example_config (http_failure 429 (Some ''0''))) = Some (Num 0) \<and>
   delays (createChatCompletion example_config
      (scripted [Inl (http_failure 429 (Some ''0''))] (Inr ()))) = [Num 1000] \<and>
   spec_backoff_delay example_config (handleError example_config (http_failure 429 (Some ''0''))) 1 = Num 0 \<and>
   delays (createChatCompletion example_config
      (scripted [Inl (http_failure 429 (Some ''0''))] (Inr ()))) \<noteq>
   [spec_backoff_delay example_config (handleError example_config (http_failure 429 (Some ''0''))) 1]"
proof -
  have p: "parseInt ''0'' = Num 0" by code_simp
  have he: "handleError example_config (http_failure 429 (Some ''0'')) =
    \<lparr>code = ''RATE_LIMITED'', message = ''Rate limit exceeded'', retryable = True,
     retryAfter = Some (Num 0)\<rparr>"
    by (simp add: handleError_def http_failure_def p)
  have m: "effective_maxRetries example_config = 3"
    by (simp add: effective_maxRetries_def example_config_def)
  have "delays (createChatCompletion example_config
      (scripted [Inl (http_failure 429 (Some ''0''))] (Inr ()))) = [Num 1000]"
    unfolding createChatCompletion_def m
    apply (subst retry_loop.simps)
    apply (simp add: scripted_def post_def he)
    apply (subst retry_loop.simps)
    apply (simp add: scripted_def post_def he backoff_delay_def backoff_base_def example_config_def)
    done
  then show ?thesis using he by (simp add: spec_backoff_delay_def)
qed


section \<open>Properties of the error classification\<close>

text \<open>
  Claim C7. \<open>handleError\<close> gives every axios error one of eight codes. A transport failure
  (no response) is \<open>NETWORK_ERROR\<close> and retryable; 400, 401, 403 and 404 get their own
  non-retryable codes; 429 is \<open>RATE_LIMITED\<close>, retryable, with \<open>retryAfter\<close> read from the
  \<open>retry-after\<close> header (60 seconds when the header is missing), in milliseconds; 500, 502, 503
  and 504 are \<open>SERVER_ERROR\<close> and retryable; every other status is \<open>UNKNOWN_ERROR\<close>, retryable
  exactly when the status is at least 500.
\<close>

theorem handleError_classification:
  "code (handleError cfg e) \<in>
     {''NETWORK_ERROR'', ''BAD_REQUEST'', ''AUTHENTICATION_ERROR'', ''AUTHORIZATION_ERROR'',
      ''MODEL_NOT_FOUND'', ''RATE_LIMITED'', ''SERVER_ERROR'', ''UNKNOWN_ERROR''} \<and>
   (response e = None \<longrightarrow>
      code (handleError cfg e) = ''NETWORK_ERROR'' \<and> retryable (handleError cfg e)) \<and>
   (\<forall>r. response e = Some r \<longrightarrow>
      (status r = 400 \<longrightarrow>
         code (handleError cfg e) = ''BAD_REQUEST'' \<and> \<not> retryable (handleError cfg e)) \<and>
      (status r = 401 \<longrightarrow>
         code (handleError cfg e) = ''AUTHENTICATION_ERROR'' \<and> \<not> retryable (handleError cfg e)) \<and>
      (status r = 403 \<longrightarrow>
         code (handleError cfg e) = ''AUTHORIZATION_ERROR'' \<and> \<not> retryable (handleError cfg e)) \<and>
      (status r = 404 \<longrightarrow>
         code (handleError cfg e) = ''MODEL_NOT_FOUND'' \<and> \<not> retryable (handleError cfg e)) \<and>
      (status r = 429 \<longrightarrow>
         code (handleError cfg e) = ''RATE_LIMITED'' \<and> retryable (handleError cfg e) \<and>
         retryAfter (handleError cfg e) =
           Some (js_times (parseInt (or_string (retry_after_header r) ''60'')) 1000)) \<and>
      (status r \<in> {500, 502, 503, 504} \<longrightarrow>
         code (handleError cfg e) = ''SERVER_ERROR'' \<and> retryable (handleError cfg e)) \<and>
      (status r \<notin> {400, 401, 403, 404, 429, 500, 502, 503, 504} \<longrightarrow>
         code (handleError cfg e) = ''UNKNOWN_ERROR'' \<and>
         retryable (handleError cfg e) = (status r \<ge> 500)))"
proof (cases "response e")
  case None
  then show ?thesis by (simp add: handleError_def)
next
  case (Some r)
  then show ?thesis by (simp add: handleError_def)
qed

theorem handleError_classification_witness:
  "code (handleError example_config (http_failure 429 (Some ''30''))) = ''RATE_LIMITED'' \<and>
   retryable (handleError example_config (http_failure 429 (Some ''30''))) \<and>
   retryAfter (handleError example_config (http_failure 429 (Some ''30''))) = Some (Num 30000) \<and>
   code (handleError example_config (http_failure 501 None)) = ''UNKNOWN_ERROR'' \<and>
   retryable (handleError example_config (http_failure 501 None)) \<and>
   code (handleError example_config (http_failure 418 None)) = ''UNKNOWN_ERROR'' \<and>
   \<not> retryable (handleError example_config (http_failure 418 None))"
proof -
  have p: "parseInt ''30'' = Num 30" by code_simp
  have r1: "response (http_failure 429 (Some ''30'')) =
      Some \<lparr>status = 429, retry_after_header = Some ''30'', error_data_message = None\<rparr>"
    by (simp add: http_failure_def)
  have r2: "response (http_failure 501 None) =
      Some \<lparr>status = 501, retry_after_header = None, error_data_message = None\<rparr>"
    by (simp add: http_failure_def)
  have r3: "response (http_failure 418 None) =
      Some \<lparr>status = 418, retry_after_header = None, error_data_message = None\<rparr>"
    by (simp add: http_failure_def)
  show ?thesis
    using handleError_classification[of example_config "http_failure 429 (Some ''30'')"]
      handleError_classification[of example_config "http_failure 501 None"]
      handleError_classification[of example_config "http_failure 418 None"]
    by (simp add: r1 r2 r3 p)
qed

section \<open>Properties of the circuit breaker\<close>

lemma execute_thresholds [simp]:
  "failureThreshold (breaker (execute cb c)) = failureThreshold cb"
  "recoveryTimeout (breaker (execute cb c)) = recoveryTimeout cb"
  by (auto simp: execute_def onSuccess_def onFailure_def Let_def split: sum.splits)

lemma run_thresholds [simp]:
  "failureThreshold (run_breaker cb cs) = failureThreshold cb"
  "recoveryTimeout (run_breaker cb cs) = recoveryTimeout cb"
  by (induction cs arbitrary: cb) auto










section \<open>Properties of model selection\<close>

lemma find_member: "find P xs = Some x \<Longrightarrow> x \<in> set xs \<and> P x"
  by (induction xs) (auto split: if_splits)

lemma selectBestModel_member: "selectBestModel ms = Inr m \<Longrightarrow> m \<in> set ms"
  by (auto simp: selectBestModel_def find_Some_iff split: list.splits option.splits)

lemma candidateModels_cases:
  "(candidateModels mgr request = filter (passes_filters mgr request) (getAvailableModels mgr) \<and>
    filter (passes_filters mgr request) (getAvailableModels mgr) \<noteq> []) \<or>
   (candidateModels mgr request = getAvailableModels mgr \<and>
    filter (passes_filters mgr request) (getAvailableModels mgr) = [])"
proof -
  have eq: "(case req_maxTokens request of
               None \<Rightarrow> (if hasImage request then filter (image_capable mgr) (getAvailableModels mgr)
                          else getAvailableModels mgr)
             | Some n \<Rightarrow>
                 if n \<noteq> 0 \<and> n > 2000
                 then filter (\<lambda>m. token_capacity mgr m \<ge> n)
                   (if hasImage request then filter (image_capable mgr) (getAvailableModels mgr)
                          else getAvailableModels mgr)
                 else (if hasImage request then filter (image_capable mgr) (getAvailableModels mgr)
                          else getAvailableModels mgr))
        = filter (passes_filters mgr request) (getAvailableModels mgr)"
    by (auto simp: passes_filters_def split: option.splits intro!: filter_cong)
  show ?thesis
    unfolding candidateModels_def Let_def eq by auto
qed

lemma candidates_available: "set (candidateModels mgr request) \<subseteq> set (getAvailableModels mgr)"
  using candidateModels_cases[of mgr request] by auto

lemma available_nonempty_name:
  "m \<in> set (getAvailableModels mgr) \<Longrightarrow> m \<noteq> [] \<and> isModelAvailable mgr m"
  by (auto simp: getAvailableModels_def isModelAvailable_def split: if_splits)

lemma confidence_not_capable:
  "capabilities mgr m = Some c \<Longrightarrow> hasImage request \<Longrightarrow> \<not> supportsImages c \<Longrightarrow>
   calculateConfidence mgr m request \<le> 2 / 10"
  by (simp add: calculateConfidence_def clamp01_def Let_def)

lemma confidence_unknown:
  "capabilities mgr m = None \<Longrightarrow> calculateConfidence mgr m request = 5 / 10"
  by (simp add: calculateConfidence_def)

lemma selectFromCandidates_model:
  "selectFromCandidates mgr request = Inr sel \<Longrightarrow>
   model sel \<in> set (candidateModels mgr request) \<and>
   confidence sel = calculateConfidence mgr (model sel) request"
  by (auto simp: selectFromCandidates_def split: sum.splits dest: selectBestModel_member)

text \<open>
  Claim C1, as the code has it. When \<open>hasImage\<close> is set and \<open>selectModel\<close> returns a
  selection, either the selected model has a capability entry with \<open>supportsImages\<close>, or no
  available model passed the image and token filters (the soft-degradation branch) and then
  the confidence is at most 0.3 when the selected model has a capability entry and exactly 0.5
  when it has none.
\<close>

theorem selectModel_image_support:
  assumes img: "hasImage request" and sel: "selectModel mgr request = Inr sel"
  shows "image_capable mgr (model sel) \<or>
         (filter (passes_filters mgr request) (getAvailableModels mgr) = [] \<and>
          (case capabilities mgr (model sel) of
             None \<Rightarrow> confidence sel = 5 / 10
           | Some caps \<Rightarrow> confidence sel \<le> 3 / 10))"
proof (cases "\<exists>p. preferredModel request = Some p \<and> preferred_usable mgr request p")
  case True
  then obtain p where p: "preferredModel request = Some p" "preferred_usable mgr request p"
    by blast
  then have "model sel = p" using sel by (auto simp: selectModel_def)
  then show ?thesis
    using p(2) img by (auto simp: preferred_usable_def image_capable_def split: option.splits)
next
  case False
  then have fc: "selectFromCandidates mgr request = Inr sel"
    using sel by (auto simp: selectModel_def split: option.splits if_splits)
  note ms = selectFromCandidates_model[OF fc]
  show ?thesis
  proof (cases "filter (passes_filters mgr request) (getAvailableModels mgr) = []")
    case False
    then have "candidateModels mgr request = filter (passes_filters mgr request) (getAvailableModels mgr)"
      using candidateModels_cases[of mgr request] by auto
    then have "passes_filters mgr request (model sel)" using ms by auto
    then show ?thesis using img by (simp add: passes_filters_def)
  next
    case empty: True
    show ?thesis
    proof (cases "capabilities mgr (model sel)")
      case None
      then show ?thesis using empty ms confidence_unknown[of mgr "model sel" request] by simp
    next
      case (Some c)
      show ?thesis
      proof (cases "supportsImages c")
        case True
        then show ?thesis using Some by (simp add: image_capable_def)
      next
        case False
        then show ?thesis
          using empty ms Some confidence_not_capable[OF Some img False] by simp
      qed
    qed
  qed
qed

lemma unknown_only_select:
  "selectModel unknown_only_manager image_request =
   Inr \<lparr>model = ''meta-llama/llama-3-8b'', confidence = 5 / 10,
        reason = ''supports image processing, primary model''\<rparr>"
  by (simp add: selectModel_def image_request_def unknown_only_manager_def new_ModelManager_def
      selectFromCandidates_def candidateModels_def getAvailableModels_def image_capable_def
      known_vision_models_def selectBestModel_def priorityOrder_def calculateConfidence_def
      getSelectionReason_def)


lemmas manager_eval =
  new_ModelManager_def selectModel_def selectFromCandidates_def candidateModels_def
  getAvailableModels_def image_capable_def token_capacity_def known_vision_models_def
  selectBestModel_def priorityOrder_def calculateConfidence_def getSelectionReason_def
  preferred_usable_def isModelAvailable_def clamp01_def passes_filters_def

lemma mixed_select:
  "selectModel mixed_manager image_request =
   Inr \<lparr>model = ''openai/gpt-4o-mini'', confidence = 8 / 10,
        reason = ''supports image processing, fallback model''\<rparr>"
  by (simp add: manager_eval image_request_def mixed_manager_def)

text \<open>
  With an unknown primary and \<open>openai/gpt-4o-mini\<close> as fallback the image-capable fallback is
  selected; with the unknown primary alone nothing passes the filters.
\<close>

theorem selectModel_image_support_witness:
  "hasImage image_request \<and>
   selectModel mixed_manager image_request =
     Inr \<lparr>model = ''openai/gpt-4o-mini'', confidence = 8 / 10,
          reason = ''supports image processing, fallback model''\<rparr> \<and>
   image_capable mixed_manager ''openai/gpt-4o-mini'' \<and>
   hasImage image_request \<and>
   selectModel unknown_only_manager image_request =
     Inr \<lparr>model = ''meta-llama/llama-3-8b'', confidence = 5 / 10,
          reason = ''supports image processing, primary model''\<rparr> \<and>
   filter (passes_filters unknown_only_manager image_request)
     (getAvailableModels unknown_only_manager) = []"
proof -
  have h: "hasImage image_request" by (simp add: image_request_def)
  have nc: "\<not> image_capable unknown_only_manager ''meta-llama/llama-3-8b''"
    by (simp add: manager_eval unknown_only_manager_def)
  have ni: "\<not> (passes_filters mixed_manager image_request ''meta-llama/llama-3-8b'')"
    by (simp add: manager_eval mixed_manager_def image_request_def)
  have fne: "filter (passes_filters mixed_manager image_request)
     (getAvailableModels mixed_manager) \<noteq> []"
    by (simp add: manager_eval mixed_manager_def image_request_def)
  have a: "image_capable mixed_manager ''openai/gpt-4o-mini''"
    using selectModel_image_support[OF h mixed_select] fne by simp
  have b: "filter (passes_filters unknown_only_manager image_request)
     (getAvailableModels unknown_only_manager) = []"
    using selectModel_image_support[OF h unknown_only_select] nc by simp
  show ?thesis using h mixed_select unknown_only_select a b by simp
qed

text \<open>
  A manager whose only model has no capability entry: the pool holds no image-capable model,
  the unknown model is selected, and \<open>calculateConfidence\<close> answers 0.5 for it, above 0.3.
\<close>

theorem selectModel_unknown_model_counterexample:
  "hasImage image_request \<and>
   selectModel unknown_only_manager image_request =
     Inr \<lparr>model = ''meta-llama/llama-3-8b'', confidence = 5 / 10,
          reason = ''supports image processing, primary model''\<rparr> \<and>
   filter (image_capable unknown_only_manager) (getAvailableModels unknown_only_manager) = [] \<and>
   \<not> image_capable unknown_only_manager ''meta-llama/llama-3-8b'' \<and>
   \<not> ((5 / 10 :: real) \<le> 3 / 10)"
proof -
  have h: "hasImage image_request" by (simp add: image_request_def)
  have e: "filter (image_capable unknown_only_manager) (getAvailableModels unknown_only_manager) = []"
    by (simp add: manager_eval unknown_only_manager_def)
  have nc: "\<not> image_capable unknown_only_manager ''meta-llama/llama-3-8b''"
    by (simp add: manager_eval unknown_only_manager_def)
  show ?thesis using h unknown_only_select e nc by simp
qed

lemma getSelectionReason_not_preferred:
  "getSelectionReason mgr m request \<noteq> ''Preferred model specified and available''"
  by (simp add: getSelectionReason_def)

text \<open>
  Claim C5, as the code has it. With \<open>preferredModel\<close> set to \<open>p\<close>, \<open>selectModel\<close> returns
  \<open>p\<close> with confidence 1 and the reason "Preferred model specified and available" when \<open>p\<close>
  is a non-empty name that is configured as primary or fallback, has a capability entry and
  supports images if \<open>hasImage\<close> is set; the token budget is not looked at. Otherwise the
  selection is the one made from the filtered candidates, and if that happens to be \<open>p\<close> its
  confidence is below 1.
\<close>

theorem selectModel_preferred:
  assumes pref: "preferredModel request = Some p"
  shows "(p \<noteq> [] \<and> isModelAvailable mgr p \<and>
          (\<exists>caps. capabilities mgr p = Some caps \<and> (hasImage request \<longrightarrow> supportsImages caps))
          \<longrightarrow> selectModel mgr request =
                Inr \<lparr>model = p, confidence = 1,
                     reason = ''Preferred model specified and available''\<rparr>) \<and>
         (\<not> (p \<noteq> [] \<and> isModelAvailable mgr p \<and>
             (\<exists>caps. capabilities mgr p = Some caps \<and> (hasImage request \<longrightarrow> supportsImages caps)))
          \<longrightarrow> selectModel mgr request = selectFromCandidates mgr request \<and>
              (\<forall>sel. selectModel mgr request = Inr sel \<and> model sel = p \<longrightarrow> confidence sel < 1))"
proof -
  have u: "preferred_usable mgr request p =
     (p \<noteq> [] \<and> isModelAvailable mgr p \<and>
          (\<exists>caps. capabilities mgr p = Some caps \<and> (hasImage request \<longrightarrow> supportsImages caps)))"
    by (auto simp: preferred_usable_def split: option.splits)
  have pos: "preferred_usable mgr request p \<Longrightarrow> selectModel mgr request =
                Inr \<lparr>model = p, confidence = 1,
                     reason = ''Preferred model specified and available''\<rparr>"
    using pref by (simp add: selectModel_def)
  have neg1: "\<not> preferred_usable mgr request p \<Longrightarrow>
      selectModel mgr request = selectFromCandidates mgr request"
    using pref by (simp add: selectModel_def)
  have neg2: "confidence sel < 1"
    if nu: "\<not> preferred_usable mgr request p" and s: "selectModel mgr request = Inr sel"
      and m: "model sel = p" for sel
  proof -
    have fc: "selectFromCandidates mgr request = Inr sel" using neg1[OF nu] s by simp
    note ms = selectFromCandidates_model[OF fc]
    have "p \<in> set (getAvailableModels mgr)"
      using ms m candidates_available[of mgr request] by auto
    then have av: "p \<noteq> [] \<and> isModelAvailable mgr p" by (rule available_nonempty_name)
    show ?thesis
    proof (cases "capabilities mgr p")
      case None
      then show ?thesis using ms m confidence_unknown[of mgr p request] by simp
    next
      case (Some c)
      then have hi: "hasImage request" and ns: "\<not> supportsImages c"
        using nu av by (auto simp: preferred_usable_def)
      have "calculateConfidence mgr p request \<le> 2 / 10"
        by (rule confidence_not_capable[OF Some hi ns])
      then show ?thesis using ms m by simp
    qed
  qed
  show ?thesis unfolding u[symmetric] using pos neg1 neg2 by blast
qed


lemma gpt4o_preferred_select:
  "selectModel gpt4o_manager large_preferred_request =
   Inr \<lparr>model = ''openai/gpt-4o'', confidence = 1,
        reason = ''Preferred model specified and available''\<rparr>"
  by (simp add: manager_eval gpt4o_manager_def large_preferred_request_def)

text \<open>
  A preferred \<open>openai/gpt-4o\<close> that is the primary model is returned with confidence 1; a
  preferred model without a capability entry sends the selection to the candidates.
\<close>

theorem selectModel_preferred_witness:
  "preferredModel large_preferred_request = Some ''openai/gpt-4o'' \<and>
   selectModel gpt4o_manager large_preferred_request =
     Inr \<lparr>model = ''openai/gpt-4o'', confidence = 1,
          reason = ''Preferred model specified and available''\<rparr> \<and>
   preferredModel unknown_preferred_request = Some ''meta-llama/llama-3-8b'' \<and>
   selectModel mixed_manager unknown_preferred_request =
     selectFromCandidates mixed_manager unknown_preferred_request"
proof -
  have p1: "preferredModel large_preferred_request = Some ''openai/gpt-4o''"
    by (simp add: large_preferred_request_def)
  have c1: "''openai/gpt-4o'' \<noteq> [] \<and> isModelAvailable gpt4o_manager ''openai/gpt-4o'' \<and>
     (\<exists>caps. capabilities gpt4o_manager ''openai/gpt-4o'' = Some caps \<and>
        (hasImage large_preferred_request \<longrightarrow> supportsImages caps))"
    by (simp add: manager_eval gpt4o_manager_def large_preferred_request_def)
  have a: "selectModel gpt4o_manager large_preferred_request =
     Inr \<lparr>model = ''openai/gpt-4o'', confidence = 1,
          reason = ''Preferred model specified and available''\<rparr>"
    using selectModel_preferred[OF p1, of gpt4o_manager] c1 by blast
  have p2: "preferredModel unknown_preferred_request = Some ''meta-llama/llama-3-8b''"
    by (simp add: unknown_preferred_request_def)
  have c2: "\<not> (''meta-llama/llama-3-8b'' \<noteq> [] \<and>
     isModelAvailable mixed_manager ''meta-llama/llama-3-8b'' \<and>
     (\<exists>caps. capabilities mixed_manager ''meta-llama/llama-3-8b'' = Some caps \<and>
        (hasImage unknown_preferred_request \<longrightarrow> supportsImages caps)))"
    by (simp add: manager_eval mixed_manager_def)
  have b: "selectModel mixed_manager unknown_preferred_request =
     selectFromCandidates mixed_manager unknown_preferred_request"
    using selectModel_preferred[OF p2, of mixed_manager] c2 by blast
  show ?thesis using p1 a p2 b by simp
qed

text \<open>
  The preferred model can hold 4000 output tokens, the request asks for 8000, and
  \<open>validateModel\<close> rejects the pair; \<open>selectModel\<close> still returns the preferred model with
  confidence 1.
\<close>

theorem selectModel_preferred_token_counterexample:
  "preferredModel large_preferred_request = Some ''openai/gpt-4o'' \<and>
   req_maxTokens large_preferred_request = Some 8000 \<and>
   token_capacity gpt4o_manager ''openai/gpt-4o'' = 4000 \<and>
   \<not> valid (validateModel gpt4o_manager ''openai/gpt-4o''
              (request_requirements large_preferred_request)) \<and>
   selectModel gpt4o_manager large_preferred_request =
     Inr \<lparr>model = ''openai/gpt-4o'', confidence = 1,
          reason = ''Preferred model specified and available''\<rparr>"
proof -
  have t: "token_capacity gpt4o_manager ''openai/gpt-4o'' = 4000"
    by (simp add: manager_eval gpt4o_manager_def)
  have v: "\<not> valid (validateModel gpt4o_manager ''openai/gpt-4o''
              (request_requirements large_preferred_request))"
    by (simp add: validateModel_def request_requirements_def manager_eval gpt4o_manager_def
        large_preferred_request_def)
  show ?thesis using t v gpt4o_preferred_select by (simp add: large_preferred_request_def)
qed

text \<open>
  Claim C9, as the code has it. \<open>selectFallbackModel\<close> returns, with confidence 0.7, an
  available model other than the primary that passes \<open>validateModel\<close> for the request, or,
  when no such model exists, the configured primary with confidence 0.3. So the only model
  failing validation for this request that it can return is the primary, as that last resort.
\<close>

theorem selectFallbackModel_result:
  "(confidence (selectFallbackModel mgr request found) = 7 / 10 \<and>
    model (selectFallbackModel mgr request found) \<noteq> primary (config mgr) \<and>
    model (selectFallbackModel mgr request found) \<in> set (getAvailableModels mgr) \<and>
    valid (validateModel mgr (model (selectFallbackModel mgr request found))
             (request_requirements request))
    \<or>
    confidence (selectFallbackModel mgr request found) = 3 / 10 \<and>
    model (selectFallbackModel mgr request found) = primary (config mgr) \<and>
    (\<forall>m \<in> set (getAvailableModels mgr).
        m \<noteq> primary (config mgr) \<longrightarrow>
        \<not> valid (validateModel mgr m (request_requirements request)))) \<and>
   (\<forall>rejected.
      \<not> valid (validateModel mgr rejected (request_requirements request)) \<and>
      model (selectFallbackModel mgr request found) = rejected \<longrightarrow>
      rejected = primary (config mgr) \<and>
      confidence (selectFallbackModel mgr request found) = 3 / 10)"
proof -
  let ?cands = "filter (\<lambda>m. m \<noteq> primary (config mgr) \<and> isModelAvailable mgr m)
                  (getAvailableModels mgr)"
  let ?ok = "\<lambda>m. valid (validateModel mgr m (request_requirements request))"
  have main:
    "(confidence (selectFallbackModel mgr request found) = 7 / 10 \<and>
      model (selectFallbackModel mgr request found) \<noteq> primary (config mgr) \<and>
      model (selectFallbackModel mgr request found) \<in> set (getAvailableModels mgr) \<and>
      ?ok (model (selectFallbackModel mgr request found)))
     \<or>
     (confidence (selectFallbackModel mgr request found) = 3 / 10 \<and>
      model (selectFallbackModel mgr request found) = primary (config mgr) \<and>
      (\<forall>m \<in> set (getAvailableModels mgr). m \<noteq> primary (config mgr) \<longrightarrow> \<not> ?ok m))"
  proof (cases "find ?ok ?cands")
    case None
    then have no: "\<forall>m \<in> set ?cands. \<not> ?ok m" by (auto simp: find_None_iff)
    have "\<forall>m \<in> set (getAvailableModels mgr). m \<noteq> primary (config mgr) \<longrightarrow> \<not> ?ok m"
    proof (intro ballI impI)
      fix m assume m: "m \<in> set (getAvailableModels mgr)" "m \<noteq> primary (config mgr)"
      then have "m \<in> set ?cands" using available_nonempty_name[OF m(1)] by simp
      then show "\<not> ?ok m" using no by blast
    qed
    then show ?thesis using None by (simp add: selectFallbackModel_def)
  next
    case (Some m)
    then have "m \<in> set ?cands" "?ok m" by (auto dest: find_member)
    then show ?thesis using Some by (simp add: selectFallbackModel_def)
  qed
  then show ?thesis by auto
qed

lemma unknown_only_invalid:
  "\<not> valid (validateModel unknown_only_manager ''meta-llama/llama-3-8b''
             (request_requirements image_request))"
  by (simp add: validateModel_def manager_eval unknown_only_manager_def)

lemma unknown_only_fallback:
  "selectFallbackModel unknown_only_manager image_request [''Model capabilities not known''] =
   \<lparr>model = ''meta-llama/llama-3-8b'', confidence = 3 / 10,
    reason = ''All models failed validation. Issues: Model capabilities not known''\<rparr>"
  by (simp add: selectFallbackModel_def manager_eval unknown_only_manager_def)

text \<open>
  The manager with one unknown model: the last resort returns the primary with confidence 0.3.
\<close>

theorem selectFallbackModel_result_witness:
  "\<not> valid (validateModel unknown_only_manager ''meta-llama/llama-3-8b''
             (request_requirements image_request)) \<and>
   model (selectFallbackModel unknown_only_manager image_request
            [''Model capabilities not known'']) = ''meta-llama/llama-3-8b'' \<and>
   ''meta-llama/llama-3-8b'' = primary (config unknown_only_manager) \<and>
   confidence (selectFallbackModel unknown_only_manager image_request
            [''Model capabilities not known'']) = 3 / 10"
  using selectFallbackModel_result[of unknown_only_manager image_request
          "[''Model capabilities not known'']"]
    unknown_only_invalid unknown_only_fallback
  by simp

text \<open>
  The primary is selected, fails validation (no capability entry), and the fallback selection
  made with the issues of that validation returns the same model.
\<close>

theorem selectFallbackModel_rejected_primary_counterexample:
  "selectModel unknown_only_manager image_request =
     Inr \<lparr>model = ''meta-llama/llama-3-8b'', confidence = 5 / 10,
          reason = ''supports image processing, primary model''\<rparr> \<and>
   validateModel unknown_only_manager ''meta-llama/llama-3-8b''
     (request_requirements image_request) =
     \<lparr>valid = False, issues = [''Model capabilities not known'']\<rparr> \<and>
   model (selectFallbackModel unknown_only_manager image_request
            [''Model capabilities not known'']) = ''meta-llama/llama-3-8b''"
proof -
  have v: "validateModel unknown_only_manager ''meta-llama/llama-3-8b''
     (request_requirements image_request) =
     \<lparr>valid = False, issues = [''Model capabilities not known'']\<rparr>"
    by (simp add: validateModel_def manager_eval unknown_only_manager_def)
  show ?thesis using unknown_only_select v unknown_only_fallback by simp
qed

text \<open>
  Claim C10. \<open>ModelRouter.selectModel\<close> always returns a selection, never an exception. When
  the model manager's \<open>selectModel\<close> throws, the selection is the configured primary with
  confidence 0.1 and the reason "Fallback due to selection error"; it throws "No available
  models" whenever the list of available models is empty.
\<close>

theorem router_selectModel_total:
  "(\<exists>sel metrics'. router_selectModel mgr metrics request = Inr (sel, metrics')) \<and>
   (isl (selectModel mgr request) \<longrightarrow>
      (\<exists>metrics'. router_selectModel mgr metrics request =
         Inr (\<lparr>model = primary (config mgr), confidence = 1 / 10,
               reason = ''Fallback due to selection error''\<rparr>, metrics'))) \<and>
   (getAvailableModels mgr = [] \<longrightarrow> selectModel mgr request = Inl ''No available models'')"
proof (intro conjI impI)
  show "\<exists>sel metrics'. router_selectModel mgr metrics request = Inr (sel, metrics')"
    by (auto simp: router_selectModel_def selectModel_body_def Let_def split: sum.splits)
next
  assume "isl (selectModel mgr request)"
  then obtain err where "selectModel mgr request = Inl err"
    by (cases "selectModel mgr request") auto
  then show "\<exists>metrics'. router_selectModel mgr metrics request =
         Inr (\<lparr>model = primary (config mgr), confidence = 1 / 10,
               reason = ''Fallback due to selection error''\<rparr>, metrics')"
    by (simp add: router_selectModel_def selectModel_body_def Let_def)
next
  assume e: "getAvailableModels mgr = []"
  have np: "\<not> preferred_usable mgr request p" for p
  proof
    assume "preferred_usable mgr request p"
    then have "p \<noteq> []" "isModelAvailable mgr p" by (auto simp: preferred_usable_def)
    then have "p \<in> set (getAvailableModels mgr)"
      by (auto simp: getAvailableModels_def isModelAvailable_def)
    then show False using e by simp
  qed
  have "candidateModels mgr request = []"
    using candidates_available[of mgr request] e by simp
  then have "selectFromCandidates mgr request = Inl ''No available models''"
    by (simp add: selectFromCandidates_def selectBestModel_def)
  then show "selectModel mgr request = Inl ''No available models''"
    using np by (simp add: selectModel_def split: option.splits)
qed

text \<open>
  A configuration with an empty primary and no fallback.
\<close>

theorem router_selectModel_total_witness:
  "getAvailableModels empty_manager = [] \<and>
   selectModel empty_manager image_request = Inl ''No available models'' \<and>
   isl (selectModel empty_manager image_request) \<and>
   (\<exists>metrics'. router_selectModel empty_manager initial_metrics image_request =
      Inr (\<lparr>model = [], confidence = 1 / 10,
            reason = ''Fallback due to selection error''\<rparr>, metrics'))"
proof -
  have e: "getAvailableModels empty_manager = []"
    by (simp add: getAvailableModels_def empty_manager_def new_ModelManager_def)
  have p: "primary (config empty_manager) = []"
    by (simp add: empty_manager_def new_ModelManager_def)
  have s: "selectModel empty_manager image_request = Inl ''No available models''"
    using router_selectModel_total[of empty_manager initial_metrics image_request] e
    by (elim conjE) simp
  then have i: "isl (selectModel empty_manager image_request)" by simp
  have x: "\<exists>metrics'. router_selectModel empty_manager initial_metrics image_request =
      Inr (\<lparr>model = primary (config empty_manager), confidence = 1 / 10,
            reason = ''Fallback due to selection error''\<rparr>, metrics')"
    using router_selectModel_total[of empty_manager initial_metrics image_request] i
    by (elim conjE) simp
  show ?thesis using e s i x[unfolded p] by (intro conjI)
qed

section \<open>Properties of truncation\<close>

lemma last_index_None: "(last_index s c = None) = (c \<notin> set s)"
  by (induction s) (auto split: option.splits)

lemma last_index_Some:
  "last_index s c = Some i \<Longrightarrow>
   i < length s \<and> s ! i = c \<and> (\<forall>j. i < j \<and> j < length s \<longrightarrow> s ! j \<noteq> c)"
proof (induction s arbitrary: i)
  case Nil
  then show ?case by simp
next
  case (Cons x xs)
  show ?case
  proof (cases "last_index xs c")
    case None
    then have i0: "i = 0" "x = c" using Cons.prems by (auto split: if_splits)
    have "c \<notin> set xs" using None by (simp add: last_index_None)
    then have "\<forall>j. 0 < j \<and> j < length (x # xs) \<longrightarrow> (x # xs) ! j \<noteq> c"
      by (auto simp: nth_Cons split: nat.splits)
    then show ?thesis using i0 by simp
  next
    case (Some k)
    then have ik: "i = Suc k" using Cons.prems by simp
    note ih = Cons.IH[OF Some]
    have "\<forall>j. Suc k < j \<and> j < length (x # xs) \<longrightarrow> (x # xs) ! j \<noteq> c"
    proof (intro allI impI)
      fix j assume j: "Suc k < j \<and> j < length (x # xs)"
      then obtain j' where j': "j = Suc j'" by (cases j) auto
      then show "(x # xs) ! j \<noteq> c" using ih j by auto
    qed
    then show ?thesis using ik ih by simp
  qed
qed

lemma lastIndexOf_cases:
  "(lastIndexOf s c = - 1 \<and> c \<notin> set s) \<or>
   (0 \<le> lastIndexOf s c \<and> nat (lastIndexOf s c) < length s \<and> s ! nat (lastIndexOf s c) = c \<and>
    (\<forall>j. nat (lastIndexOf s c) < j \<and> j < length s \<longrightarrow> s ! j \<noteq> c))"
proof (cases "last_index s c")
  case None
  then have "c \<notin> set s" by (simp add: last_index_None)
  then show ?thesis using None by (simp add: lastIndexOf_def)
next
  case (Some i)
  then show ?thesis using last_index_Some[OF Some] by (simp add: lastIndexOf_def)
qed

lemma last_index_snoc: "last_index (xs @ [c]) c = Some (length xs)"
  by (induction xs) auto

lemma last_index_bound: "last_index s c = Some i \<Longrightarrow> i < length s"
  using last_index_Some by blast

lemma lastIndexOf_lt: "lastIndexOf s c < int (length s)"
  by (cases "last_index s c") (auto simp: lastIndexOf_def dest: last_index_bound)

lemma times_0_7_nonneg: "0 \<le> m \<Longrightarrow> 0 \<le> times_0_7_scaled m"
  by (simp add: times_0_7_scaled_def)

lemma exceeds_mono: "exceeds_70_percent a m \<Longrightarrow> a \<le> b \<Longrightarrow> exceeds_70_percent b m"
proof -
  assume a: "exceeds_70_percent a m" and le: "a \<le> b"
  have "a * 2 ^ 52 \<le> b * (2 ^ 52 :: int)" using le by (simp add: mult_right_mono)
  then show ?thesis using a by (simp add: exceeds_70_percent_def)
qed

lemma not_exceeds_negative: "0 \<le> m \<Longrightarrow> a < 0 \<Longrightarrow> \<not> exceeds_70_percent a m"
proof -
  assume m: "0 \<le> m" and a: "a < 0"
  have "a * 2 ^ 52 < (0::int)" using a by (simp add: mult_less_0_iff)
  then show ?thesis using times_0_7_nonneg[OF m] by (simp add: exceeds_70_percent_def)
qed


lemma truncateResponse_shape:
  assumes pos: "0 < maxLength" and long: "maxLength < int (length text)"
  shows "suffix truncation_marker (truncateResponse text maxLength) \<and>
    ((\<exists>k. 0 < k \<and> k \<le> nat (maxLength - 50) \<and>
          truncateResponse text maxLength = take k text @ truncation_marker \<and>
          text ! (k - 1) \<in> {CHR ''.'', NL} \<and>
          (\<forall>j. k \<le> j \<and> j < nat (maxLength - 50) \<longrightarrow> text ! j \<notin> {CHR ''.'', NL}) \<and>
          exceeds_70_percent (int k - 1) maxLength)
     \<or>
     (truncateResponse text maxLength = take (nat (maxLength - 50)) text @ ''...'' @ truncation_marker \<and>
      (\<forall>j. j < nat (maxLength - 50) \<and> text ! j \<in> {CHR ''.'', NL} \<longrightarrow>
           \<not> exceeds_70_percent (int j) maxLength)))"
proof -
  let ?n = "nat (maxLength - 50)"
  let ?t = "take ?n text"
  let ?ls = "lastIndexOf ?t (CHR ''.'')"
  let ?ll = "lastIndexOf ?t NL"
  let ?cut = "max ?ls ?ll"
  have len: "length ?t = ?n" using long by simp
  have nth: "\<And>j. j < ?n \<Longrightarrow> ?t ! j = text ! j" by simp
  have unfold: "truncateResponse text maxLength =
     (if exceeds_70_percent ?cut maxLength
      then take (nat (?cut + 1)) ?t @ truncation_marker
      else ?t @ ''...'' @ truncation_marker)"
    using long by (simp add: truncateResponse_def substring0_def Let_def)
  have dot: "?ls = - 1 \<and> CHR ''.'' \<notin> set ?t \<or>
     0 \<le> ?ls \<and> nat ?ls < length ?t \<and> ?t ! nat ?ls = CHR ''.'' \<and>
     (\<forall>j. nat ?ls < j \<and> j < length ?t \<longrightarrow> ?t ! j \<noteq> CHR ''.'')"
    by (rule lastIndexOf_cases)
  have brk: "?ll = - 1 \<and> NL \<notin> set ?t \<or>
     0 \<le> ?ll \<and> nat ?ll < length ?t \<and> ?t ! nat ?ll = NL \<and>
     (\<forall>j. nat ?ll < j \<and> j < length ?t \<longrightarrow> ?t ! j \<noteq> NL)"
    by (rule lastIndexOf_cases)
  show ?thesis
  proof (cases "exceeds_70_percent ?cut maxLength")
    case True
    have cut0: "0 \<le> ?cut"
      using True not_exceeds_negative[of maxLength ?cut] pos by (cases "?cut < 0") auto
    have cutlt: "?cut < int ?n"
      using lastIndexOf_lt[of ?t "CHR ''.''"] lastIndexOf_lt[of ?t NL] len by simp
    define k where "k = nat (?cut + 1)"
    have k: "0 < k" "k \<le> ?n" "int k - 1 = ?cut"
      using cut0 cutlt unfolding k_def by linarith+
    have out: "truncateResponse text maxLength = take k text @ truncation_marker"
      using unfold True k(2) by (simp add: k_def min_def)
    have km1: "k - 1 = nat ?cut" using cut0 unfolding k_def by linarith
    have at: "text ! (k - 1) \<in> {CHR ''.'', NL}"
    proof (cases "?ll \<le> ?ls")
      case le: True
      then have c: "?cut = ?ls" by simp
      then have "0 \<le> ?ls" using cut0 by simp
      then have "?t ! nat ?ls = CHR ''.''" "nat ?ls < ?n" using dot len by auto
      then show ?thesis using c km1 nth by auto
    next
      case False
      then have c: "?cut = ?ll" by simp
      then have "0 \<le> ?ll" using cut0 by simp
      then have "?t ! nat ?ll = NL" "nat ?ll < ?n" using brk len by auto
      then show ?thesis using c km1 nth by auto
    qed
    have after: "\<forall>j. k \<le> j \<and> j < ?n \<longrightarrow> text ! j \<notin> {CHR ''.'', NL}"
    proof (intro allI impI)
      fix j assume j: "k \<le> j \<and> j < ?n"
      then have jc: "?cut < int j" using k(3) by linarith
      have jt: "?t ! j = text ! j" "j < length ?t" using j len by auto
      have d: "?t ! j \<noteq> CHR ''.''"
      proof (cases "?ls = - 1")
        case True
        then have "CHR ''.'' \<notin> set ?t" using dot by auto
        then show ?thesis using jt(2) nth_mem by metis
      next
        case False
        then have "nat ?ls < j" using dot jc by auto
        then show ?thesis using dot False jt(2) by auto
      qed
      have b: "?t ! j \<noteq> NL"
      proof (cases "?ll = - 1")
        case True
        then have "NL \<notin> set ?t" using brk by auto
        then show ?thesis using jt(2) nth_mem by metis
      next
        case False
        then have "nat ?ll < j" using brk jc by auto
        then show ?thesis using brk False jt(2) by auto
      qed
      show "text ! j \<notin> {CHR ''.'', NL}" using d b jt(1) by auto
    qed
    have ex: "exceeds_70_percent (int k - 1) maxLength" using True k(3) by simp
    have suf: "suffix truncation_marker (truncateResponse text maxLength)"
      unfolding out by (simp add: suffix_def)
    show ?thesis using suf k(1,2) out at after ex by blast
  next
    case False
    have out: "truncateResponse text maxLength = ?t @ ''...'' @ truncation_marker"
      using unfold False by simp
    have none: "\<forall>j. j < ?n \<and> text ! j \<in> {CHR ''.'', NL} \<longrightarrow> \<not> exceeds_70_percent (int j) maxLength"
    proof (intro allI impI)
      fix j assume j: "j < ?n \<and> text ! j \<in> {CHR ''.'', NL}"
      then have jt: "?t ! j = text ! j" "j < length ?t" using len by auto
      have "int j \<le> ?cut"
      proof (cases "text ! j = CHR ''.''")
        case True
        then have mem: "CHR ''.'' \<in> set ?t" using jt nth_mem by metis
        have "\<not> nat ?ls < j" using dot mem jt True by auto
        moreover have "0 \<le> ?ls" using dot mem by auto
        ultimately show ?thesis by linarith
      next
        case F: False
        then have nl: "text ! j = NL" using j by auto
        then have mem: "NL \<in> set ?t" using jt nth_mem by metis
        have "\<not> nat ?ll < j" using brk mem jt nl by auto
        moreover have "0 \<le> ?ll" using brk mem by auto
        ultimately show ?thesis by linarith
      qed
      then show "\<not> exceeds_70_percent (int j) maxLength"
        using False exceeds_mono by blast
    qed
    have suf: "suffix truncation_marker (truncateResponse text maxLength)"
      unfolding out by (simp add: suffix_def)
    show ?thesis using suf out none by blast
  qed
qed

lemma bit_length_4000: "bit_length 12610078956637388000 = 64"
  by (simp add: bit_length.simps)

lemma times_0_7_4000: "times_0_7_scaled 4000 = 2800 * 2 ^ 52"
  by (simp add: times_0_7_scaled_def round_to_53_bits_def bit_length_4000 Let_def)

lemma exceeds_3949_4000: "exceeds_70_percent 3949 4000"
  by (simp add: exceeds_70_percent_def times_0_7_4000)

lemma truncate_at_3950:
  assumes len5000: "length text = 5000" and period: "text ! 3949 = CHR ''.''"
  shows "truncateResponse text 4000 = take 3950 text @ truncation_marker"
proof -
  define t where "t = take 3950 text"
  have lt: "length t = 3950" using len5000 by (simp add: t_def)
  have "take (Suc 3949) text = take 3949 text @ [text ! 3949]"
    by (rule take_Suc_conv_app_nth) (simp add: len5000)
  then have sp: "t = take 3949 text @ [CHR ''.'']"
    using period by (simp add: t_def)
  have l3949: "length (take 3949 text) = 3949" using len5000 by simp
  have "last_index t (CHR ''.'') = Some 3949"
    unfolding sp using last_index_snoc[of "take 3949 text" "CHR ''.''"] l3949 by simp
  then have ls: "lastIndexOf t (CHR ''.'') = 3949"
    by (simp add: lastIndexOf_def)
  have "lastIndexOf t NL < int (length t)" by (rule lastIndexOf_lt)
  then have ll: "lastIndexOf t NL < 3950" using lt by simp
  have cut: "max (lastIndexOf t (CHR ''.'')) (lastIndexOf t NL) = 3949"
    using ls ll by simp
  have long: "\<not> int (length text) \<le> 4000" using len5000 by simp
  have "truncateResponse text 4000 =
      (if exceeds_70_percent (max (lastIndexOf t (CHR ''.'')) (lastIndexOf t NL)) 4000
       then take (nat (max (lastIndexOf t (CHR ''.'')) (lastIndexOf t NL) + 1)) t @ truncation_marker
       else t @ ''...'' @ truncation_marker)"
    using long by (simp add: truncateResponse_def substring0_def Let_def t_def)
  also have "\<dots> = take 3950 t @ truncation_marker"
    unfolding cut using exceeds_3949_4000 by simp
  also have "\<dots> = t @ truncation_marker" using lt by simp
  finally show ?thesis by (simp add: t_def)
qed



text \<open>
  Claim C8, as the code has it. When the formatted text is longer than a positive
  \<open>maxResponseLength\<close>, the output ends with the marker "[Response truncated]" after a blank
  line. Only the first \<open>maxResponseLength - 50\<close> characters are looked at: if the last period
  or line break among them lies at an index above \<open>0.7 * maxResponseLength\<close>, the output is the
  text up to and including that character, plus the marker; otherwise it is those first
  \<open>maxResponseLength - 50\<close> characters, cut wherever they end, plus "..." and the marker. In
  particular a text of 5000 characters whose 3950th character is a period is cut, under a limit
  of 4000, right after that period.
\<close>

theorem formatResponseText_truncation:
  assumes lim: "maxResponseLength options = Some limit"
    and pos: "0 < limit"
    and long: "limit < int (length (format_before_truncation content options))"
  shows "suffix truncation_marker (formatResponseText content options) \<and>
    ((\<exists>k. 0 < k \<and> k \<le> nat (limit - 50) \<and>
          formatResponseText content options =
            take k (format_before_truncation content options) @ truncation_marker \<and>
          format_before_truncation content options ! (k - 1) \<in> {CHR ''.'', NL} \<and>
          (\<forall>j. k \<le> j \<and> j < nat (limit - 50) \<longrightarrow>
               format_before_truncation content options ! j \<notin> {CHR ''.'', NL}) \<and>
          exceeds_70_percent (int k - 1) limit)
     \<or>
     (formatResponseText content options =
        take (nat (limit - 50)) (format_before_truncation content options) @ ''...'' @
        truncation_marker \<and>
      (\<forall>j. j < nat (limit - 50) \<and>
           format_before_truncation content options ! j \<in> {CHR ''.'', NL} \<longrightarrow>
           \<not> exceeds_70_percent (int j) limit))) \<and>
    (limit = 4000 \<and> length (format_before_truncation content options) = 5000 \<and>
     format_before_truncation content options ! 3949 = CHR ''.'' \<longrightarrow>
       formatResponseText content options =
         take 3950 (format_before_truncation content options) @ truncation_marker)"
proof -
  have eq: "formatResponseText content options =
      truncateResponse (format_before_truncation content options) limit"
    using lim pos long by (simp add: formatResponseText_def Let_def)
  note sh = truncateResponse_shape[OF pos long]
  have ex: "limit = 4000 \<and> length (format_before_truncation content options) = 5000 \<and>
     format_before_truncation content options ! 3949 = CHR ''.'' \<longrightarrow>
       truncateResponse (format_before_truncation content options) limit =
         take 3950 (format_before_truncation content options) @ truncation_marker"
  proof (intro impI, elim conjE)
    assume "limit = 4000" "length (format_before_truncation content options) = 5000"
      "format_before_truncation content options ! 3949 = CHR ''.''"
    then show "truncateResponse (format_before_truncation content options) limit =
         take 3950 (format_before_truncation content options) @ truncation_marker"
      using truncate_at_3950[of "format_before_truncation content options"] by simp
  qed
  have s1: "suffix truncation_marker (truncateResponse (format_before_truncation content options) limit)"
    by (rule conjunct1[OF sh])
  note s2 = conjunct2[OF sh]
  have all: "suffix truncation_marker (truncateResponse (format_before_truncation content options) limit) \<and>
    ((\<exists>k. 0 < k \<and> k \<le> nat (limit - 50) \<and>
          truncateResponse (format_before_truncation content options) limit =
            take k (format_before_truncation content options) @ truncation_marker \<and>
          format_before_truncation content options ! (k - 1) \<in> {CHR ''.'', NL} \<and>
          (\<forall>j. k \<le> j \<and> j < nat (limit - 50) \<longrightarrow>
               format_before_truncation content options ! j \<notin> {CHR ''.'', NL}) \<and>
          exceeds_70_percent (int k - 1) limit)
     \<or>
     (truncateResponse (format_before_truncation content options) limit =
        take (nat (limit - 50)) (format_before_truncation content options) @ ''...'' @
        truncation_marker \<and>
      (\<forall>j. j < nat (limit - 50) \<and>
           format_before_truncation content options ! j \<in> {CHR ''.'', NL} \<longrightarrow>
           \<not> exceeds_70_percent (int j) limit))) \<and>
    (limit = 4000 \<and> length (format_before_truncation content options) = 5000 \<and>
     format_before_truncation content options ! 3949 = CHR ''.'' \<longrightarrow>
       truncateResponse (format_before_truncation content options) limit =
         take 3950 (format_before_truncation content options) @ truncation_marker)"
    apply (rule conjI)
     apply (rule s1)
    apply (rule conjI)
     apply (rule s2)
    apply (rule ex)
    done
  show ?thesis
    apply (subst eq)+
    apply (rule all)
    done
qed

lemma trim_id: "s \<noteq> [] \<Longrightarrow> \<not> is_space (hd s) \<Longrightarrow> \<not> is_space (last s) \<Longrightarrow> trim s = s"
proof -
  assume ne: "s \<noteq> []" and h: "\<not> is_space (hd s)" and l: "\<not> is_space (last s)"
  have a: "dropWhile is_space s = s" using ne h by (simp add: dropWhile_eq_self_iff)
  have "hd (rev s) = last s" using ne by (simp add: hd_rev)
  then have b: "dropWhile is_space (rev s) = rev s" using l by (simp add: dropWhile_eq_self_iff)
  show ?thesis by (simp add: trim_def a b)
qed

lemma long_text_length: "length long_text = 5000"
  by (simp add: long_text_def)

lemma long_text_period: "long_text ! 3949 = CHR ''.''"
  by (simp add: long_text_def nth_append)

lemma long_text_format: "format_before_truncation long_text long_limit_options = long_text"
proof -
  have ne: "long_text \<noteq> []" using long_text_length by auto
  have h: "hd long_text = CHR ''a''" by (simp add: long_text_def hd_append)
  have l: "last long_text = CHR ''b''" by (simp add: long_text_def)
  have "trim long_text = long_text"
    by (rule trim_id[OF ne]) (simp_all add: h l is_space_def)
  then show ?thesis
    by (simp add: format_before_truncation_def long_limit_options_def)
qed

text \<open>
  A text of 5000 characters with its only period as the 3950th character, limit 4000.
\<close>

theorem formatResponseText_truncation_witness:
  "maxResponseLength long_limit_options = Some 4000 \<and>
   length (format_before_truncation long_text long_limit_options) = 5000 \<and>
   format_before_truncation long_text long_limit_options ! 3949 = CHR ''.'' \<and>
   suffix truncation_marker (formatResponseText long_text long_limit_options) \<and>
   formatResponseText long_text long_limit_options =
     take 3950 long_text @ truncation_marker"
proof -
  have lim: "maxResponseLength long_limit_options = Some 4000"
    by (simp add: long_limit_options_def)
  have pos: "(0::int) < 4000" by simp
  have long: "4000 < int (length (format_before_truncation long_text long_limit_options))"
    by (simp add: long_text_format long_text_length)
  note inst = formatResponseText_truncation[OF lim pos long]
  have s: "suffix truncation_marker (formatResponseText long_text long_limit_options)"
    by (rule conjunct1[OF inst])
  have ex: "4000 = (4000::int) \<and>
     length (format_before_truncation long_text long_limit_options) = 5000 \<and>
     format_before_truncation long_text long_limit_options ! 3949 = CHR ''.''"
    by (simp add: long_text_format long_text_length long_text_period)
  have out: "formatResponseText long_text long_limit_options =
     take 3950 (format_before_truncation long_text long_limit_options) @ truncation_marker"
    by (rule mp[OF conjunct2[OF conjunct2[OF inst]] ex])
  show ?thesis
    using lim s out ex by (simp add: long_text_format)
qed

lemma bit_length_60: "bit_length 189151184349560820 = 58"
  by (simp add: bit_length.simps)

lemma times_0_7_60: "times_0_7_scaled 60 = 42 * 2 ^ 52"
  by (simp add: times_0_7_scaled_def round_to_53_bits_def bit_length_60 Let_def)

lemma not_exceeds_5_60: "\<not> exceeds_70_percent 5 60"
  by (simp add: exceeds_70_percent_def times_0_7_60)

lemma greeting_format: "format_before_truncation greeting_text short_limit_options = greeting_text"
  by code_simp

lemma greeting_head: "take 10 greeting_text = ''Hello. aaa''"
  by code_simp

lemma greeting_indexes:
  "lastIndexOf ''Hello. aaa'' (CHR ''.'') = 5" "lastIndexOf ''Hello. aaa'' NL = - 1"
  by (simp_all add: lastIndexOf_def)

lemma greeting_length: "length greeting_text = 70"
  by (simp add: greeting_text_def)

lemma greeting_spec: "spec_truncate greeting_text 60 = ''Hello.'' @ truncation_marker"
  by code_simp

text \<open>
  Limit 60 and a text of 70 characters starting with "Hello. ": a sentence ends at index 5,
  before the limit, yet the output keeps ten characters and stops inside the second sentence.
\<close>

theorem formatResponseText_mid_sentence_counterexample:
  "maxResponseLength short_limit_options = Some 60 \<and>
   length (format_before_truncation greeting_text short_limit_options) = 70 \<and>
   format_before_truncation greeting_text short_limit_options ! 5 = CHR ''.'' \<and>
   formatResponseText greeting_text short_limit_options = ''Hello. aaa...'' @ truncation_marker \<and>
   spec_truncate greeting_text 60 = ''Hello.'' @ truncation_marker \<and>
   formatResponseText greeting_text short_limit_options \<noteq> spec_truncate greeting_text 60"
proof -
  have lim: "maxResponseLength short_limit_options = Some 60"
    by (simp add: short_limit_options_def)
  have at5: "greeting_text ! 5 = CHR ''.''" by (simp add: greeting_text_def)
  have tr: "truncateResponse greeting_text 60 = ''Hello. aaa...'' @ truncation_marker"
    using not_exceeds_5_60
    by (simp add: truncateResponse_def substring0_def Let_def greeting_length greeting_head
        greeting_indexes)
  have out: "formatResponseText greeting_text short_limit_options =
      ''Hello. aaa...'' @ truncation_marker"
    by (simp add: formatResponseText_def Let_def lim greeting_format greeting_length tr)
  have ne: "''Hello. aaa...'' @ truncation_marker \<noteq> ''Hello.'' @ truncation_marker"
    by (simp add: truncation_marker_def)
  show ?thesis
    using lim at5 out greeting_length ne by (simp add: greeting_format greeting_spec)
qed

section \<open>Properties of the streaming transformation\<close>

lemma hello_punctuation:
  "\<not> ends_with_sentence_punctuation ''Hello''" "\<not> ends_with_line_break ''Hello''"
  "\<not> ends_with_sentence_punctuation ''Hello world''" "\<not> ends_with_line_break ''Hello world''"
  "ends_with_sentence_punctuation ''.''" "ends_with_sentence_punctuation ''Hello world.''"
  by code_simp+

lemma hello_should:
  "shouldProcessChunk ''Hello'' opts = (effective_chunkSize opts \<le> 5)"
  "shouldProcessChunk ''Hello world'' opts = (effective_chunkSize opts \<le> 11)"
  "shouldProcessChunk ''.'' opts"
  "shouldProcessChunk ''Hello world.'' opts"
  by (simp_all add: shouldProcessChunk_def hello_punctuation)

lemma world_should: "effective_chunkSize opts \<le> 5 \<Longrightarrow> shouldProcessChunk '' world'' opts"
  by (simp add: shouldProcessChunk_def)

lemma hello_trims:
  "trim ''Hello'' = ''Hello''" "trim '' world'' = ''world''" "trim ''.'' = ''.''"
  "trim ''Hello world'' = ''Hello world''" "trim ''Hello world.'' = ''Hello world.''"
  "trim '' Hello world.'' = ''Hello world.''"
  by code_simp+

lemma hello_process:
  "processChunk ''Hello'' opts = '' Hello''"
  "processChunk '' world'' opts = '' world''"
  "processChunk ''.'' opts = ''.''"
  "processChunk ''Hello world'' opts = '' Hello world''"
  "processChunk ''Hello world.'' opts = '' Hello world.''"
  by (simp_all add: processChunk_def hello_trims)

lemma hello_not_analysis:
  "\<not> isImageAnalysis '' Hello''" "\<not> isImageAnalysis '' Hello world''"
  "\<not> isImageAnalysis '' Hello world.''"
  by code_simp+

lemma hello_final_only:
  "\<not> is_final (createIntermediateResponse t h opts)"
  "is_final (createFinalResponse t opts)"
  by (simp_all add: is_final_def createIntermediateResponse_def createFinalResponse_def
      no_metadata_def Let_def)

lemma trim_empty: "trim [] = []"
  by (simp add: trim_def)

lemma hello_finals:
  "filter is_final (transformStreamingResponse hello_stream opts) =
   [createFinalResponse '' Hello world.'' opts]"
proof -
  consider (small) "effective_chunkSize opts \<le> 5"
    | (medium) "5 < effective_chunkSize opts" "effective_chunkSize opts \<le> 11"
    | (large) "11 < effective_chunkSize opts"
    by linarith
  then show ?thesis
  proof cases
    case small
    then show ?thesis
      by (simp add: transformStreamingResponse_def hello_stream_def hello_should world_should
          hello_process hello_not_analysis hello_final_only remaining_buffer_def hello_trims
          trim_empty)
  next
    case medium
    then show ?thesis
      by (simp add: transformStreamingResponse_def hello_stream_def hello_should
          hello_process hello_not_analysis hello_final_only remaining_buffer_def hello_trims
          trim_empty)
  next
    case large
    then show ?thesis
      by (simp add: transformStreamingResponse_def hello_stream_def hello_should
          hello_process hello_not_analysis hello_final_only remaining_buffer_def hello_trims
          trim_empty)
  qed
qed

lemma hello_not_keyword: "\<not> appearsToBeImageAnalysis ''Hello world.''"
  by code_simp

lemma hello_normal: "normalize_whitespace ''Hello world.'' = ''Hello world.''"
  by code_simp

lemma hello_format_before:
  "format_before_truncation ''Hello world.'' opts = ''Hello world.''"
  "format_before_truncation '' Hello world.'' opts = ''Hello world.''"
  by (simp_all add: format_before_truncation_def Let_def hello_trims hello_not_keyword
      hello_normal)

lemma hello_format_same:
  "formatResponseText '' Hello world.'' opts = formatResponseText ''Hello world.'' opts"
  by (simp add: formatResponseText_def hello_format_before)

lemma hello_non_streaming:
  "content_text (transformVisionResponse hello_response opts) =
   formatResponseText ''Hello world.'' opts"
  by (simp add: transformVisionResponse_def hello_response_def extractContent_def
      extractMetadata_def estimateConfidence_def first_finish_reason_def Let_def)

text \<open>
  Claim C6. For every options record, the chunks "Hello", " world", "." followed by \<open>done\<close>
  make \<open>transformStreamingResponse\<close> yield exactly one response with \<open>partial = false\<close>. Its
  text is the text \<open>transformVisionResponse\<close> gives for a response whose message is
  "Hello world.", both being \<open>formatResponseText\<close> of the same trimmed text; it is
  "Hello world." unless \<open>maxResponseLength\<close> is set to a non-zero value below the 12 characters
  of the text.
\<close>

theorem streaming_hello_world:
  "(\<exists>final. filter is_final (transformStreamingResponse hello_stream opts) = [final] \<and>
      content_text final = content_text (transformVisionResponse hello_response opts) \<and>
      ((case maxResponseLength opts of None \<Rightarrow> True | Some n \<Rightarrow> n = 0 \<or> 12 \<le> n) \<longrightarrow>
         content_text final = ''Hello world.''))"
proof -
  let ?final = "createFinalResponse '' Hello world.'' opts"
  have t: "content_text ?final = formatResponseText ''Hello world.'' opts"
    by (simp add: createFinalResponse_def hello_format_same)
  have same: "content_text ?final = content_text (transformVisionResponse hello_response opts)"
    using t hello_non_streaming by simp
  have plain: "(case maxResponseLength opts of None \<Rightarrow> True | Some n \<Rightarrow> n = 0 \<or> 12 \<le> n) \<longrightarrow>
         content_text ?final = ''Hello world.''"
    unfolding t by (auto simp: formatResponseText_def hello_format_before split: option.splits)
  show ?thesis
    using hello_finals[of opts] same plain by (intro exI[of _ ?final] conjI)
qed

text \<open>
  The default options, whose limit is 4000.
\<close>

theorem streaming_hello_world_witness:
  "filter is_final (transformStreamingResponse hello_stream defaultOptions) =
     [createFinalResponse '' Hello world.'' defaultOptions] \<and>
   maxResponseLength defaultOptions = Some 4000 \<and>
   content_text (createFinalResponse '' Hello world.'' defaultOptions) = ''Hello world.'' \<and>
   content_text (transformVisionResponse hello_response defaultOptions) = ''Hello world.''"
proof -
  have m: "maxResponseLength defaultOptions = Some 4000" by (simp add: defaultOptions_def)
  obtain fr where f: "filter is_final (transformStreamingResponse hello_stream defaultOptions) = [fr]"
    "content_text fr = content_text (transformVisionResponse hello_response defaultOptions)"
    "(case maxResponseLength defaultOptions of None \<Rightarrow> True | Some n \<Rightarrow> n = 0 \<or> 12 \<le> n) \<longrightarrow>
         content_text fr = ''Hello world.''"
    using streaming_hello_world[of defaultOptions] by (elim exE conjE)
  have same_final: "fr = createFinalResponse '' Hello world.'' defaultOptions"
    using f(1) hello_finals[of defaultOptions] by simp
  have plain_text: "content_text fr = ''Hello world.''" using f(3) m by simp
  show ?thesis using f(1,2) same_final plain_text m by simp
qed

section \<open>Properties of image processing\<close>

lemma check_oversize:
  "length buffer > maxSize opts \<Longrightarrow>
   isl (image_outcome (check_and_optimize lib opts buffer fmt calls)) \<and>
   sharp_calls (check_and_optimize lib opts buffer fmt calls) = calls"
  by (simp add: check_and_optimize_def)

lemma check_success:
  "image_outcome (check_and_optimize lib opts buffer fmt calls) = Inr d \<Longrightarrow>
   length buffer \<le> maxSize opts \<and> image_size d = length (fst (optimizeImage lib opts buffer fmt))"
  by (auto simp: check_and_optimize_def Let_def split: if_splits prod.splits)

lemma processImage_isl:
  "isl (image_outcome (processImage lib opts url)) = isl (image_outcome (processImage_try lib opts url))"
  by (auto simp: processImage_def Let_def split: sum.splits thrown.splits bool.splits)

lemma processImage_calls:
  "sharp_calls (processImage lib opts url) = sharp_calls (processImage_try lib opts url)"
  by (auto simp: processImage_def Let_def split: sum.splits thrown.splits bool.splits)

lemma processImage_Inr:
  "image_outcome (processImage lib opts url) = Inr d \<Longrightarrow>
   image_outcome (processImage_try lib opts url) = Inr d"
  by (auto simp: processImage_def Let_def split: sum.splits thrown.splits bool.splits)

lemma download_no_toBuffer: "ToBufferCall \<notin> set (snd (downloadImage lib url))"
  by (auto simp: downloadImage_def split: sum.splits option.splits prod.splits)

lemma try_obtained:
  "obtained_image lib url = Some (buffer, fmt) \<Longrightarrow>
   \<exists>calls. processImage_try lib opts url = check_and_optimize lib opts buffer fmt calls \<and>
           ToBufferCall \<notin> set calls \<and>
           (input_kind (validateImageInput lib url) = Base64Input \<longrightarrow> calls = [])"
proof -
  assume ob: "obtained_image lib url = Some (buffer, fmt)"
  then have v: "input_valid (validateImageInput lib url)"
    by (auto simp: obtained_image_def split: if_splits)
  show ?thesis
  proof (cases "input_kind (validateImageInput lib url) = Base64Input")
    case True
    then have "processImage_try lib opts url = check_and_optimize lib opts buffer fmt []"
      using ob v by (auto simp: obtained_image_def processImage_try_def Let_def)
    then show ?thesis by auto
  next
    case False
    then have d: "fst (downloadImage lib url) = Inr (buffer, fmt)"
      using ob v by (auto simp: obtained_image_def split: sum.splits)
    then have "processImage_try lib opts url =
        check_and_optimize lib opts buffer fmt (snd (downloadImage lib url))"
      using v False by (cases "downloadImage lib url") (auto simp: processImage_try_def Let_def)
    then show ?thesis using download_no_toBuffer[of lib url] False by auto
  qed
qed

lemma try_success_obtained:
  "image_outcome (processImage_try lib opts url) = Inr d \<Longrightarrow>
   \<exists>buffer fmt. obtained_image lib url = Some (buffer, fmt)"
  by (cases "downloadImage lib url")
     (auto simp: processImage_try_def obtained_image_def Let_def split: if_splits sum.splits)

lemma optimize_passthrough:
  "toLowerCase fmt = ''gif'' \<or> sharp_metadata lib buffer = None \<or>
   (\<forall>resize enc. sharp_toBuffer lib buffer resize enc = None) \<Longrightarrow>
   fst (optimizeImage lib opts buffer fmt) = buffer"
  by (auto simp: optimizeImage_def Let_def split: option.splits prod.splits)

text \<open>
  Claim C4, as the code has it. The size ceiling is checked once, on the bytes obtained from
  the input. A payload of more than \<open>maxSize\<close> bytes makes \<open>processImage\<close> fail before
  \<open>optimizeImage\<close> runs: sharp never re-encodes it, and for an inline payload sharp is not
  called at all. When \<open>processImage\<close> succeeds, the input had at most \<open>maxSize\<close> bytes and the
  size it returns is the length of what \<open>optimizeImage\<close> produced, which is not compared
  with \<open>maxSize\<close> again; it is within \<open>maxSize\<close> when the bytes pass through unchanged
  (a GIF, or a failure inside sharp).
\<close>

theorem processImage_size_policy:
  "(\<forall>buffer fmt. obtained_image lib url = Some (buffer, fmt) \<and> length buffer > maxSize opts \<longrightarrow>
      isl (image_outcome (processImage lib opts url)) \<and>
      ToBufferCall \<notin> set (sharp_calls (processImage lib opts url)) \<and>
      (input_kind (validateImageInput lib url) = Base64Input \<longrightarrow>
         sharp_calls (processImage lib opts url) = [])) \<and>
   (\<forall>d. image_outcome (processImage lib opts url) = Inr d \<longrightarrow>
      (\<exists>buffer fmt. obtained_image lib url = Some (buffer, fmt) \<and>
         length buffer \<le> maxSize opts \<and>
         image_size d = length (fst (optimizeImage lib opts buffer fmt)) \<and>
         (toLowerCase fmt = ''gif'' \<or> sharp_metadata lib buffer = None \<or>
          (\<forall>resize enc. sharp_toBuffer lib buffer resize enc = None) \<longrightarrow>
            image_size d \<le> maxSize opts)))"
proof (intro conjI allI impI)
  fix buffer fmt
  assume h: "obtained_image lib url = Some (buffer, fmt) \<and> length buffer > maxSize opts"
  then obtain calls where c: "processImage_try lib opts url = check_and_optimize lib opts buffer fmt calls"
    "ToBufferCall \<notin> set calls"
    "input_kind (validateImageInput lib url) = Base64Input \<longrightarrow> calls = []"
    using try_obtained[of lib url buffer fmt opts] by auto
  have o: "isl (image_outcome (check_and_optimize lib opts buffer fmt calls))"
    "sharp_calls (check_and_optimize lib opts buffer fmt calls) = calls"
    using check_oversize[of opts buffer lib fmt calls] h by auto
  show "isl (image_outcome (processImage lib opts url))"
    using o(1) c(1) by (simp add: processImage_isl)
  show "ToBufferCall \<notin> set (sharp_calls (processImage lib opts url))"
    using o(2) c(1,2) by (simp add: processImage_calls)
  show "sharp_calls (processImage lib opts url) = []"
    if "input_kind (validateImageInput lib url) = Base64Input"
    using that o(2) c(1,3) by (simp add: processImage_calls)
next
  fix d
  assume s: "image_outcome (processImage lib opts url) = Inr d"
  then have t: "image_outcome (processImage_try lib opts url) = Inr d"
    by (rule processImage_Inr)
  then obtain buffer fmt where ob: "obtained_image lib url = Some (buffer, fmt)"
    using try_success_obtained by blast
  then obtain calls where c: "processImage_try lib opts url = check_and_optimize lib opts buffer fmt calls"
    using try_obtained[of lib url buffer fmt opts] by auto
  have k: "length buffer \<le> maxSize opts"
    "image_size d = length (fst (optimizeImage lib opts buffer fmt))"
    using check_success[of lib opts buffer fmt calls d] t c by auto
  have p: "toLowerCase fmt = ''gif'' \<or> sharp_metadata lib buffer = None \<or>
          (\<forall>resize enc. sharp_toBuffer lib buffer resize enc = None) \<longrightarrow>
            image_size d \<le> maxSize opts"
    using optimize_passthrough[of fmt lib buffer opts] k by auto
  show "\<exists>buffer fmt. obtained_image lib url = Some (buffer, fmt) \<and>
         length buffer \<le> maxSize opts \<and>
         image_size d = length (fst (optimizeImage lib opts buffer fmt)) \<and>
         (toLowerCase fmt = ''gif'' \<or> sharp_metadata lib buffer = None \<or>
          (\<forall>resize enc. sharp_toBuffer lib buffer resize enc = None) \<longrightarrow>
            image_size d \<le> maxSize opts)"
    using ob k p by blast
qed


lemma oversize_inline_obtained:
  "obtained_image growing_libraries ''data:image/png;base64,AAAAAAAA'' = Some (replicate 6 0, ''png'')"
  by code_simp

lemma oversize_inline_kind:
  "input_kind (validateImageInput growing_libraries ''data:image/png;base64,AAAAAAAA'') = Base64Input"
  by code_simp

lemma gif_inline_run:
  "image_outcome (processImage growing_libraries tiny_image_options ''data:image/gif;base64,AAAA'') =
   Inr \<lparr>image_url = ''data:image/gif;base64,AAAA'', image_format = ''gif'', image_size = 3,
        image_base64 = ''AAAA''\<rparr>"
  by code_simp

lemma gif_inline_obtained:
  "obtained_image growing_libraries ''data:image/gif;base64,AAAA'' = Some (replicate 3 0, ''gif'')"
  by code_simp

text \<open>
  Ceiling of three bytes: an inline PNG payload of six bytes is rejected without a call to
  sharp; an inline GIF of three bytes passes through unchanged.
\<close>

theorem processImage_size_policy_witness:
  "obtained_image growing_libraries ''data:image/png;base64,AAAAAAAA'' = Some (replicate 6 0, ''png'') \<and>
   maxSize tiny_image_options = 3 \<and>
   isl (image_outcome (processImage growing_libraries tiny_image_options
          ''data:image/png;base64,AAAAAAAA'')) \<and>
   sharp_calls (processImage growing_libraries tiny_image_options
          ''data:image/png;base64,AAAAAAAA'') = [] \<and>
   image_outcome (processImage growing_libraries tiny_image_options ''data:image/gif;base64,AAAA'') =
     Inr \<lparr>image_url = ''data:image/gif;base64,AAAA'', image_format = ''gif'', image_size = 3,
          image_base64 = ''AAAA''\<rparr> \<and>
   (3::nat) \<le> maxSize tiny_image_options"
proof -
  have m: "maxSize tiny_image_options = 3" by (simp add: tiny_image_options_def)
  have big: "obtained_image growing_libraries ''data:image/png;base64,AAAAAAAA'' =
      Some (replicate 6 0, ''png'') \<and> length (replicate 6 (0::nat)) > maxSize tiny_image_options"
    using oversize_inline_obtained m by simp
  note a = conjunct1[OF processImage_size_policy[of growing_libraries
        "''data:image/png;base64,AAAAAAAA''" tiny_image_options], rule_format, OF big]
  have rejected: "isl (image_outcome (processImage growing_libraries tiny_image_options
          ''data:image/png;base64,AAAAAAAA''))"
    using a by simp
  have quiet: "sharp_calls (processImage growing_libraries tiny_image_options
          ''data:image/png;base64,AAAAAAAA'') = []"
    using a oversize_inline_kind by simp
  note b = conjunct2[OF processImage_size_policy[of growing_libraries
        "''data:image/gif;base64,AAAA''" tiny_image_options], rule_format, OF gif_inline_run]
  have small: "(3::nat) \<le> maxSize tiny_image_options"
    using b gif_inline_obtained by (auto simp: toLowerCase_def toLowerCase_char_def)
  show ?thesis
    using oversize_inline_obtained m rejected quiet gif_inline_run small by simp
qed

text \<open>
  Ceiling of three bytes, an inline PNG payload of three bytes, and a re-encoding that comes
  out at five bytes: \<open>processImage\<close> returns the five bytes.
\<close>

theorem processImage_reencoded_size_counterexample:
  "maxSize tiny_image_options = 3 \<and>
   obtained_image growing_libraries ''data:image/png;base64,AAAA'' = Some (replicate 3 0, ''png'') \<and>
   image_outcome (processImage growing_libraries tiny_image_options ''data:image/png;base64,AAAA'') =
     Inr \<lparr>image_url = ''data:image/png;base64,AAAAAAAA'', image_format = ''png'', image_size = 5,
          image_base64 = ''AAAAAAAA''\<rparr> \<and>
   \<not> (5::nat) \<le> 3"
proof -
  have m: "maxSize tiny_image_options = 3" by (simp add: tiny_image_options_def)
  have ob: "obtained_image growing_libraries ''data:image/png;base64,AAAA'' =
      Some (replicate 3 0, ''png'')"
    by code_simp
  have r: "image_outcome (processImage growing_libraries tiny_image_options
        ''data:image/png;base64,AAAA'') =
     Inr \<lparr>image_url = ''data:image/png;base64,AAAAAAAA'', image_format = ''png'', image_size = 5,
          image_base64 = ''AAAAAAAA''\<rparr>"
    by code_simp
  show ?thesis using m ob r by simp
qed

text \<open>
  The rejection of an oversized payload as the caller sees it. The error made by
  \<open>createError\<close> is an object literal, so the test \<open>error instanceof Error\<close> of the \<open>catch\<close>
  block fails and the error is wrapped.
\<close>

lemma processImage_too_large_code:
  "image_outcome (processImage growing_libraries tiny_image_options
      ''data:image/png;base64,AAAAAAAA'') =
   Inl (PlainObject
     \<lparr>code = ''PROCESSING_ERROR'',
      message = ''Failed to process image: Image size (6 bytes) exceeds limit (3 bytes)'',
      retryable = False, retryAfter = None\<rparr>)"
  by code_simp

end
